theory Spec2Isabelle
  imports Complex_Main "HOL-Library.Sublist"
begin

section \<open>Python values and exceptions\<close>

text \<open>
  The tracker passes loosely typed values around. The three shapes that matter for the
  arithmetic paths are \<open>None\<close>, a number and a string. Floats are modelled as reals.
  An exception raised inside a function is the left summand of its result.
\<close>

datatype pyval = PyNone | PyNum real | PyStr string

datatype error = TypeError | ValueError | DatabaseError

section \<open>FareCalculator: \<open>calculate_fare\<close> (simplified\_bus\_server.py)\<close>

text \<open>One document of the \<open>fareStages\<close> collection.\<close>

record fare_stage =
  fs_stage_number :: int
  fs_is_active :: bool
  fs_fare :: real

text \<open>
  The three \<open>find_one\<close> queries of \<open>calculate_fare\<close>. A collection is a list in
  natural order; a sorted \<open>find_one\<close> returns the first document of the stably sorted
  result.
\<close>

definition first_doc :: "'a list \<Rightarrow> 'a option" where
  "first_doc xs = (case xs of [] \<Rightarrow> None | x # _ \<Rightarrow> Some x)"

definition find_exact_stage :: "fare_stage list \<Rightarrow> int \<Rightarrow> fare_stage option" where
  "find_exact_stage tbl n =
     first_doc (filter (\<lambda>fs. fs_stage_number fs = n \<and> fs_is_active fs) tbl)"

definition find_closest_stage :: "fare_stage list \<Rightarrow> int \<Rightarrow> fare_stage option" where
  "find_closest_stage tbl n =
     first_doc (sort_key fs_stage_number
       (filter (\<lambda>fs. n \<le> fs_stage_number fs \<and> fs_is_active fs) tbl))"

definition find_highest_stage :: "fare_stage list \<Rightarrow> fare_stage option" where
  "find_highest_stage tbl =
     first_doc (sort_key (\<lambda>fs. - fs_stage_number fs) (filter fs_is_active tbl))"

text \<open>
  The part of \<open>calculate_fare\<close> after \<open>stage_number\<close> is computed: exact stage,
  closest higher stage, highest stage, hardcoded fallback.
\<close>

definition fare_for_stage :: "fare_stage list \<Rightarrow> int \<Rightarrow> real" where
  "fare_for_stage tbl stage_number =
     (case find_exact_stage tbl stage_number of
        Some fs \<Rightarrow> fs_fare fs
      | None \<Rightarrow>
         (case find_closest_stage tbl stage_number of
            Some fs \<Rightarrow> fs_fare fs
          | None \<Rightarrow>
             (case find_highest_stage tbl of
                Some fs \<Rightarrow> fs_fare fs
              | None \<Rightarrow>
                 (if stage_number = 1 then 30
                  else 30 + of_int (stage_number - 1) * 10))))"

text \<open>
  The body of the \<open>try\<close> block. The collection is \<open>Inl e\<close> when a query on it raises.
  \<open>not distance_km\<close> is true for \<open>None\<close>, zero and the empty string; comparing a
  non-empty string with a number raises \<open>TypeError\<close>.
\<close>

definition calculate_fare_body :: "error + fare_stage list \<Rightarrow> pyval \<Rightarrow> error + real" where
  "calculate_fare_body db distance_km =
     (case distance_km of
        PyNone \<Rightarrow> Inr 0
      | PyStr s \<Rightarrow> (if s = [] then Inr 0 else Inl TypeError)
      | PyNum d \<Rightarrow>
          (if d = 0 \<or> d \<le> 0 then Inr 0
           else if d < 0.1 then Inr 0
           else
             (case db of
                Inl e \<Rightarrow> Inl e
              | Inr tbl \<Rightarrow> Inr (fare_for_stage tbl \<lceil>d / 3.5\<rceil>))))"

text \<open>\<open>except Exception: return 0.0\<close>.\<close>

definition calculate_fare :: "error + fare_stage list \<Rightarrow> pyval \<Rightarrow> real" where
  "calculate_fare db distance_km =
     (case calculate_fare_body db distance_km of Inl e \<Rightarrow> 0 | Inr v \<Rightarrow> v)"

text \<open>
  Conditions on the active part of a fare table: fares never decrease with the stage number,
  and no fare is negative.
\<close>

definition fares_monotone :: "fare_stage list \<Rightarrow> bool" where
  "fares_monotone tbl =
     list_all (\<lambda>a. list_all (\<lambda>b. fs_stage_number b < fs_stage_number a \<or> fs_fare a \<le> fs_fare b)
                 (filter fs_is_active tbl))
       (filter fs_is_active tbl)"

definition fares_nonneg :: "fare_stage list \<Rightarrow> bool" where
  "fares_nonneg tbl = list_all (\<lambda>a. 0 \<le> fs_fare a) (filter fs_is_active tbl)"

section \<open>GeoDistance\<close>

text \<open>
  \<open>float(x)\<close>: a number converts to itself, \<open>None\<close> raises \<open>TypeError\<close>, a string
  converts when Python's parser accepts it and raises \<open>ValueError\<close> otherwise. The parser
  is a parameter (\<open>str_to_float\<close>): it belongs to the language, not to this repository.
\<close>

definition py_float :: "(string \<Rightarrow> real option) \<Rightarrow> pyval \<Rightarrow> error + real" where
  "py_float str_to_float v =
     (case v of
        PyNone \<Rightarrow> Inl TypeError
      | PyNum r \<Rightarrow> Inr r
      | PyStr s \<Rightarrow> (case str_to_float s of None \<Rightarrow> Inl ValueError | Some r \<Rightarrow> Inr r))"

definition radians :: "real \<Rightarrow> real" where
  "radians x = x * pi / 180"

text \<open>
  The Haversine formula, written three times in the source with the same body
  (\<open>calculate_haversine_distance\<close>, \<open>calculate_distance\<close> and the nested
  \<open>haversine_distance\<close> of \<open>_check_location_proximity\<close>).
\<close>

definition haversine_distance :: "real \<Rightarrow> real \<Rightarrow> real \<Rightarrow> real \<Rightarrow> real" where
  "haversine_distance lat1 lon1 lat2 lon2 =
     (let rlat1 = radians lat1; rlon1 = radians lon1;
          rlat2 = radians lat2; rlon2 = radians lon2;
          dlat = rlat2 - rlat1;
          dlon = rlon2 - rlon1;
          a = (sin (dlat / 2))\<^sup>2 + cos rlat1 * cos rlat2 * (sin (dlon / 2))\<^sup>2;
          c = 2 * arcsin (sqrt a)
      in 6371 * c)"

text \<open>
  The \<open>try\<close> block shared by \<open>calculate_haversine_distance\<close> and
  \<open>calculate_distance\<close>: the four conversions run left to right, the first failure
  raises.
\<close>

definition haversine_try :: "(string \<Rightarrow> real option) \<Rightarrow> pyval \<Rightarrow> pyval \<Rightarrow> pyval \<Rightarrow> pyval
    \<Rightarrow> error + real" where
  "haversine_try str_to_float lat1 lon1 lat2 lon2 =
     (case py_float str_to_float lat1 of Inl e \<Rightarrow> Inl e | Inr a1 \<Rightarrow>
      (case py_float str_to_float lon1 of Inl e \<Rightarrow> Inl e | Inr o1 \<Rightarrow>
       (case py_float str_to_float lat2 of Inl e \<Rightarrow> Inl e | Inr a2 \<Rightarrow>
        (case py_float str_to_float lon2 of Inl e \<Rightarrow> Inl e | Inr o2 \<Rightarrow>
           Inr (haversine_distance a1 o1 a2 o2)))))"

text \<open>\<open>SimplifiedBusTracker.calculate_haversine_distance\<close>: \<open>except: return 0.0\<close>.\<close>

definition calculate_haversine_distance :: "(string \<Rightarrow> real option) \<Rightarrow> pyval \<Rightarrow> pyval \<Rightarrow> pyval
    \<Rightarrow> pyval \<Rightarrow> real" where
  "calculate_haversine_distance str_to_float lat1 lon1 lat2 lon2 =
     (case haversine_try str_to_float lat1 lon1 lat2 lon2 of Inl e \<Rightarrow> 0 | Inr d \<Rightarrow> d)"

text \<open>
  \<open>RouteDetector.calculate_distance\<close>: \<open>except: return float('inf')\<close>. A distance is
  a finite number of kilometres or infinity.
\<close>

datatype distance = Km real | Infinity

definition calculate_distance :: "(string \<Rightarrow> real option) \<Rightarrow> pyval \<Rightarrow> pyval \<Rightarrow> pyval
    \<Rightarrow> pyval \<Rightarrow> distance" where
  "calculate_distance str_to_float lat1 lon1 lat2 lon2 =
     (case haversine_try str_to_float lat1 lon1 lat2 lon2 of Inl e \<Rightarrow> Infinity | Inr d \<Rightarrow> Km d)"

section \<open>Segment matching: \<open>RouteDetector._check_location_proximity\<close>\<close>

text \<open>
  A stop of a \<open>busRoutes\<close> document. A missing coordinate is \<open>None\<close>; a missing
  \<open>stop_order\<close> reads as 0 and a missing \<open>stop_name\<close> as the empty string.
\<close>

record bus_stop =
  stop_name :: string
  stop_latitude :: "real option"
  stop_longitude :: "real option"
  stop_order :: "int option"

record bus_route =
  br_route_name :: string
  br_is_active :: bool
  br_stops :: "bus_stop list"

text \<open>One entry of a season-ticket member's \<open>valid_routes\<close>.\<close>

record valid_route =
  from_location :: string
  to_location :: string
  route_patterns :: "string list"

text \<open>\<open>str.lower()\<close> on ASCII text, and the substring test \<open>a in b\<close>.\<close>

definition lower_char :: "char \<Rightarrow> char" where
  "lower_char c =
     (case map_of (zip ''ABCDEFGHIJKLMNOPQRSTUVWXYZ'' ''abcdefghijklmnopqrstuvwxyz'') c of
        Some l \<Rightarrow> l
      | None \<Rightarrow> c)"

definition lower :: "string \<Rightarrow> string" where
  "lower s = map lower_char s"

definition py_in :: "string \<Rightarrow> string \<Rightarrow> bool" where
  "py_in a b = sublist a b"

text \<open>\<open>not x\<close> for a coordinate: missing or zero.\<close>

definition coord_falsy :: "real option \<Rightarrow> bool" where
  "coord_falsy c = (case c of None \<Rightarrow> True | Some v \<Rightarrow> v = 0)"

definition PROXIMITY_THRESHOLD_KM :: real where
  "PROXIMITY_THRESHOLD_KM = 10"

text \<open>
  The loop over the stops of one route. \<open>entry_stop\<close> and \<open>exit_stop\<close> are each set
  once, by the first stop found within the threshold, and never replaced.
\<close>

fun find_stops :: "real \<Rightarrow> real \<Rightarrow> real \<Rightarrow> real \<Rightarrow> bus_stop list
    \<Rightarrow> bus_stop option \<Rightarrow> bus_stop option \<Rightarrow> bus_stop option \<times> bus_stop option" where
  "find_stops entry_lat entry_lon exit_lat exit_lon [] entry_stop exit_stop =
     (entry_stop, exit_stop)"
| "find_stops entry_lat entry_lon exit_lat exit_lon (stop # stops) entry_stop exit_stop =
     (if coord_falsy (stop_latitude stop) \<or> coord_falsy (stop_longitude stop)
      then find_stops entry_lat entry_lon exit_lat exit_lon stops entry_stop exit_stop
      else
        (let stop_lat = the (stop_latitude stop);
             stop_lon = the (stop_longitude stop);
             entry_stop' =
               (if entry_stop = None
                then (if haversine_distance entry_lat entry_lon stop_lat stop_lon
                           \<le> PROXIMITY_THRESHOLD_KM
                      then Some stop else None)
                else entry_stop);
             exit_stop' =
               (if exit_stop = None
                then (if haversine_distance exit_lat exit_lon stop_lat stop_lon
                           \<le> PROXIMITY_THRESHOLD_KM
                      then Some stop else None)
                else exit_stop)
         in find_stops entry_lat entry_lon exit_lat exit_lon stops entry_stop' exit_stop'))"

text \<open>
  The details returned beside the verdict: for a match on route stops the route name, the
  two stop names and their orders; for a match on the static table the two location names
  (the rounded distances are left out).
\<close>

datatype match_info =
    RouteStops string string string int int
  | LocationProximity string string
  | NotWithinProximity

definition get_stop_order :: "bus_stop \<Rightarrow> int" where
  "get_stop_order stop = (case stop_order stop of None \<Rightarrow> 0 | Some n \<Rightarrow> n)"

text \<open>
  The body of the loop over routes, for one route: \<open>Some\<close> when it returns from the
  function, \<open>None\<close> when the loop goes on to the next route.
\<close>

definition match_route_stops :: "real \<Rightarrow> real \<Rightarrow> real \<Rightarrow> real \<Rightarrow> valid_route list
    \<Rightarrow> bus_route \<Rightarrow> match_info option" where
  "match_route_stops entry_lat entry_lon exit_lat exit_lon member_valid_routes route =
     (if br_stops route = [] then None
      else
        (case find_stops entry_lat entry_lon exit_lat exit_lon (br_stops route) None None of
           (Some entry_stop, Some exit_stop) \<Rightarrow>
             (let entry_order = get_stop_order entry_stop;
                  exit_order = get_stop_order exit_stop
              in if entry_order < exit_order
                 then
                   (case List.find
                           (\<lambda>vr. py_in (lower (from_location vr)) (lower (stop_name entry_stop))
                               \<and> py_in (lower (to_location vr)) (lower (stop_name exit_stop)))
                           member_valid_routes of
                      Some vr \<Rightarrow>
                        Some (RouteStops (br_route_name route) (stop_name entry_stop)
                                (stop_name exit_stop) entry_order exit_order)
                    | None \<Rightarrow> None)
                 else None)
         | _ \<Rightarrow> None))"

fun match_routes :: "real \<Rightarrow> real \<Rightarrow> real \<Rightarrow> real \<Rightarrow> valid_route list
    \<Rightarrow> bus_route list \<Rightarrow> match_info option" where
  "match_routes entry_lat entry_lon exit_lat exit_lon member_valid_routes [] = None"
| "match_routes entry_lat entry_lon exit_lat exit_lon member_valid_routes (route # routes) =
     (case match_route_stops entry_lat entry_lon exit_lat exit_lon member_valid_routes route of
        Some info \<Rightarrow> Some info
      | None \<Rightarrow> match_routes entry_lat entry_lon exit_lat exit_lon member_valid_routes routes)"

definition known_locations :: "string \<Rightarrow> (real \<times> real) option" where
  "known_locations =
     [''jaffna'' \<mapsto> (9.6615, 80.0255),
      ''kodikamam'' \<mapsto> (9.6833, 80.0833),
      ''chavakachcheri'' \<mapsto> (9.6667, 80.1667),
      ''kilinochchi'' \<mapsto> (9.3833, 80.4000),
      ''vavuniya'' \<mapsto> (8.7542, 80.4982),
      ''anuradhapura'' \<mapsto> (8.3114, 80.4037),
      ''kurunegala'' \<mapsto> (7.4863, 80.3623),
      ''colombo'' \<mapsto> (6.9271, 79.8612),
      ''kandy'' \<mapsto> (7.2906, 80.6337)]"

text \<open>The second loop: the member's named locations against the static table.\<close>

fun match_known_locations :: "real \<Rightarrow> real \<Rightarrow> real \<Rightarrow> real \<Rightarrow> valid_route list
    \<Rightarrow> match_info" where
  "match_known_locations entry_lat entry_lon exit_lat exit_lon [] = NotWithinProximity"
| "match_known_locations entry_lat entry_lon exit_lat exit_lon (vr # rest) =
     (let from_loc = lower (from_location vr); to_loc = lower (to_location vr)
      in case (known_locations from_loc, known_locations to_loc) of
           (Some from_coords, Some to_coords) \<Rightarrow>
             (let entry_distance =
                    haversine_distance entry_lat entry_lon (fst from_coords) (snd from_coords);
                  exit_distance =
                    haversine_distance exit_lat exit_lon (fst to_coords) (snd to_coords)
              in if entry_distance \<le> PROXIMITY_THRESHOLD_KM
                    \<and> exit_distance \<le> PROXIMITY_THRESHOLD_KM
                 then LocationProximity from_loc to_loc
                 else match_known_locations entry_lat entry_lon exit_lat exit_lon rest)
         | _ \<Rightarrow> match_known_locations entry_lat entry_lon exit_lat exit_lon rest)"

text \<open>
  \<open>_check_location_proximity\<close>. The \<open>busRoutes\<close> collection is \<open>Inl e\<close> when the
  query raises; the \<open>except\<close> clause then falls through to the static table, as an
  unsuccessful pass over the routes does.
\<close>

definition check_location_proximity :: "error + bus_route list \<Rightarrow> real \<Rightarrow> real \<Rightarrow> real \<Rightarrow> real
    \<Rightarrow> valid_route list \<Rightarrow> match_info" where
  "check_location_proximity busRoutes entry_lat entry_lon exit_lat exit_lon member_valid_routes =
     (case (case busRoutes of
              Inl e \<Rightarrow> None
            | Inr routes \<Rightarrow>
                match_routes entry_lat entry_lon exit_lat exit_lon member_valid_routes
                  (filter br_is_active routes)) of
        Some info \<Rightarrow> info
      | None \<Rightarrow> match_known_locations entry_lat entry_lon exit_lat exit_lon member_valid_routes)"

definition is_valid :: "match_info \<Rightarrow> bool" where
  "is_valid info = (case info of NotWithinProximity \<Rightarrow> False | _ \<Rightarrow> True)"

text \<open>
  A stop counts for a point when both its coordinates are present and non-zero and it lies
  within the threshold of the point.
\<close>

definition stop_within :: "real \<Rightarrow> real \<Rightarrow> bus_stop \<Rightarrow> bool" where
  "stop_within lat lon stop =
     (\<not> coord_falsy (stop_latitude stop) \<and> \<not> coord_falsy (stop_longitude stop) \<and>
      haversine_distance lat lon (the (stop_latitude stop)) (the (stop_longitude stop))
        \<le> PROXIMITY_THRESHOLD_KM)"

text \<open>
  The two rules of \<open>_check_location_proximity\<close>, as conditions. The route-stops
  rule holds of a route when both points have a stop on it, the entry stop's order is
  strictly below the exit stop's order, and some segment of the member names the two stops.
  The known-locations rule holds of a segment of the member when both its names are in
  the static table and lie within the threshold of the entry and of the exit point; it
  does not read any stop order.
\<close>

definition route_stops_accepts :: "real \<Rightarrow> real \<Rightarrow> real \<Rightarrow> real \<Rightarrow> valid_route list
    \<Rightarrow> bus_route \<Rightarrow> bool" where
  "route_stops_accepts entry_lat entry_lon exit_lat exit_lon member_valid_routes route =
     (case find_stops entry_lat entry_lon exit_lat exit_lon (br_stops route) None None of
        (Some entry_stop, Some exit_stop) \<Rightarrow>
          get_stop_order entry_stop < get_stop_order exit_stop \<and>
          list_ex (\<lambda>vr. py_in (lower (from_location vr)) (lower (stop_name entry_stop))
                      \<and> py_in (lower (to_location vr)) (lower (stop_name exit_stop)))
            member_valid_routes
      | _ \<Rightarrow> False)"

definition known_location_accepts :: "real \<Rightarrow> real \<Rightarrow> real \<Rightarrow> real \<Rightarrow> valid_route \<Rightarrow> bool" where
  "known_location_accepts entry_lat entry_lon exit_lat exit_lon vr =
     (case (known_locations (lower (from_location vr)), known_locations (lower (to_location vr))) of
        (Some from_coords, Some to_coords) \<Rightarrow>
          haversine_distance entry_lat entry_lon (fst from_coords) (snd from_coords)
            \<le> PROXIMITY_THRESHOLD_KM \<and>
          haversine_distance exit_lat exit_lon (fst to_coords) (snd to_coords)
            \<le> PROXIMITY_THRESHOLD_KM
      | _ \<Rightarrow> False)"

text \<open>The \<open>match_type\<close> of a result is \<open>route_stops\<close>.\<close>

definition is_route_stops :: "match_info \<Rightarrow> bool" where
  "is_route_stops info = (case info of RouteStops rn en xn eo xo \<Rightarrow> True | _ \<Rightarrow> False)"

section \<open>FaceMatchEngine\<close>

text \<open>
  \<open>sklearn.metrics.pairwise.cosine_similarity\<close> on two single-row matrices: the rows are
  scaled to unit length (a zero row is left as it is) and multiplied. Rows of different
  lengths raise \<open>ValueError\<close>.
\<close>

definition dot :: "real list \<Rightarrow> real list \<Rightarrow> real" where
  "dot a b = sum_list (map2 (*) a b)"

definition row_norm :: "real list \<Rightarrow> real" where
  "row_norm v = (let n = sqrt (dot v v) in if n = 0 then 1 else n)"

definition cosine_similarity :: "real list \<Rightarrow> real list \<Rightarrow> error + real" where
  "cosine_similarity x y =
     (if length x = length y then Inr (dot x y / (row_norm x * row_norm y))
      else Inl ValueError)"

section \<open>TripLedger: the state of \<open>SimplifiedBusTracker\<close>\<close>

text \<open>
  A trip id is made of the bus id and the start time cut to the minute
  (\<open>f"{bus_id}_{date}_{HH:MM}"\<close>); \<open>UNKNOWN\<close> stands for a document without one.
  Times are seconds; \<open>datetime.now()\<close> is the argument \<open>now\<close> of every operation.
\<close>

datatype trip_id = TripId string int | UNKNOWN

datatype trip_status = Active | Completed

datatype record_type = ENTRY | EXIT

text \<open>
  The documents of the collections, with the fields the modelled operations read or that
  the properties below speak about. \<open>_id\<close> is kept where an operation queries by it.
  Left out are the fields that are only copied through (route name, device id, embedding
  size, creation time) and the place names the reverse geocoder adds to a journey.
\<close>

record temp_entry =
  te_oid :: nat
  te_trip_id :: trip_id
  te_bus_id :: string
  te_face_id :: int
  te_face_embedding :: "real list"
  te_latitude :: real
  te_longitude :: real
  te_entry_timestamp :: int

record unmatched_passenger =
  um_trip_id :: trip_id
  um_bus_id :: string
  um_type :: record_type
  um_face_id :: int
  um_face_embedding :: "real list"
  um_latitude :: real
  um_longitude :: real
  um_timestamp :: int
  um_best_similarity_found :: real
  um_reason :: string

record final_passenger =
  fp_id :: nat
  fp_trip_id :: trip_id
  fp_bus_id :: string
  fp_is_season_ticket :: bool
  fp_season_member_id :: "string option"
  fp_entry_timestamp :: int
  fp_exit_timestamp :: int
  fp_journey_duration_minutes :: real
  fp_similarity_score :: real
  fp_entry_face_id :: int
  fp_exit_face_id :: int
  fp_distance_km :: "real option"
  fp_price :: real
  fp_stage_number :: int

record trip_session =
  ts_oid :: nat
  ts_trip_id :: trip_id
  ts_bus_id :: string
  ts_start_time :: int
  ts_end_time :: "int option"
  ts_status :: trip_status
  ts_total_passengers :: nat
  ts_total_unmatched :: nat

record season_member =
  sm_oid :: nat
  sm_member_id :: string
  sm_face_embedding :: "real list"
  sm_is_active :: bool
  sm_valid_from :: int
  sm_valid_until :: int
  sm_valid_routes :: "valid_route list"
  sm_total_trips :: nat
  sm_last_used :: "int option"

text \<open>\<open>self.current_trip\<close>.\<close>

record trip_ref =
  ct_trip_id :: trip_id
  ct_start_time :: int
  ct_status :: trip_status
  ct_oid :: nat

text \<open>
  A face log as a field device sends it. \<open>log_timestamp\<close> is what
  \<open>datetime.fromisoformat\<close> makes of the timestamp string: \<open>None\<close> when the string is
  missing or does not parse.
\<close>

record face_log =
  log_location_type :: string
  log_face_id :: int
  log_face_embedding :: "real list"
  log_latitude :: real
  log_longitude :: real
  log_timestamp :: "int option"

text \<open>
  The tracker: its configuration, \<open>current_trip\<close> and the collections. \<open>next_oid\<close> is
  the supply of fresh \<open>_id\<close> values.
\<close>

record tracker =
  bus_id :: string
  route_name :: string
  similarity_threshold :: real
  season_ticket_similarity_threshold :: real
  time_window_hours :: int
  current_trip :: "trip_ref option"
  temp_entries :: "temp_entry list"
  final_passengers :: "final_passenger list"
  unmatched_passengers :: "unmatched_passenger list"
  trip_sessions :: "trip_session list"
  season_ticket_members :: "season_member list"
  fareStages :: "error + fare_stage list"
  next_oid :: nat

text \<open>\<open>update_one\<close> and \<open>delete_one\<close> act on the first matching document.\<close>

fun update_one :: "('a \<Rightarrow> bool) \<Rightarrow> ('a \<Rightarrow> 'a) \<Rightarrow> 'a list \<Rightarrow> 'a list" where
  "update_one P f [] = []"
| "update_one P f (x # xs) = (if P x then f x # xs else x # update_one P f xs)"

fun delete_one :: "('a \<Rightarrow> bool) \<Rightarrow> 'a list \<Rightarrow> 'a list" where
  "delete_one P [] = []"
| "delete_one P (x # xs) = (if P x then xs else x # delete_one P xs)"

definition delete_many :: "('a \<Rightarrow> bool) \<Rightarrow> 'a list \<Rightarrow> 'a list" where
  "delete_many P xs = filter (\<lambda>x. \<not> P x) xs"

definition generate_trip_id :: "tracker \<Rightarrow> int \<Rightarrow> trip_id" where
  "generate_trip_id s start_time = TripId (bus_id s) (start_time div 60)"

text \<open>
  \<open>_parse_timestamp_safe\<close>: the server time replaces a missing or unparseable timestamp
  and one before the year 2020 (1577836800 is 2020-01-01 00:00:00).
\<close>

definition parse_timestamp_safe :: "int \<Rightarrow> int option \<Rightarrow> int" where
  "parse_timestamp_safe now ts =
     (case ts of
        None \<Rightarrow> now
      | Some parsed_time \<Rightarrow> (if parsed_time < 1577836800 then now else parsed_time))"

definition trip_active :: "tracker \<Rightarrow> bool" where
  "trip_active s = (case current_trip s of None \<Rightarrow> False | Some ct \<Rightarrow> ct_status ct = Active)"

subsection \<open>\<open>end_current_trip\<close>\<close>

definition entry_to_unmatched :: "trip_id \<Rightarrow> string \<Rightarrow> string \<Rightarrow> temp_entry \<Rightarrow> unmatched_passenger" where
  "entry_to_unmatched tid bus reason entry =
     \<lparr>um_trip_id = tid, um_bus_id = bus, um_type = ENTRY,
      um_face_id = te_face_id entry, um_face_embedding = te_face_embedding entry,
      um_latitude = te_latitude entry, um_longitude = te_longitude entry,
      um_timestamp = te_entry_timestamp entry,
      um_best_similarity_found = 0, um_reason = reason\<rparr>"

definition end_current_trip :: "tracker \<Rightarrow> int \<Rightarrow> bool \<times> tracker" where
  "end_current_trip s now =
     (case current_trip s of
        None \<Rightarrow> (False, s)
      | Some ct \<Rightarrow>
          (let trip_id = ct_trip_id ct;
               passenger_count =
                 length (filter (\<lambda>p. fp_trip_id p = trip_id) (final_passengers s));
               remaining =
                 filter (\<lambda>e. te_trip_id e = trip_id \<and> te_bus_id e = bus_id s) (temp_entries s);
               unmatched =
                 map (entry_to_unmatched trip_id (bus_id s) ''Trip ended - no exit match found'')
                   remaining;
               unmatched_count = length remaining
           in (True,
               s\<lparr>unmatched_passengers := unmatched_passengers s @ unmatched,
                  temp_entries := delete_many (\<lambda>e. te_trip_id e = trip_id) (temp_entries s),
                  trip_sessions :=
                    update_one (\<lambda>t. ts_oid t = ct_oid ct)
                      (\<lambda>t. t\<lparr>ts_status := Completed, ts_end_time := Some now,
                              ts_total_passengers := passenger_count,
                              ts_total_unmatched := unmatched_count\<rparr>)
                      (trip_sessions s),
                  current_trip := None\<rparr>)))"

subsection \<open>\<open>start_new_trip\<close>\<close>

text \<open>The safety cleanup of \<open>start_new_trip\<close>: every entry left for this bus is orphaned.\<close>

definition cleanup_orphans :: "tracker \<Rightarrow> tracker" where
  "cleanup_orphans s =
     (let orphaned_entries = filter (\<lambda>e. te_bus_id e = bus_id s) (temp_entries s)
      in if 0 < length orphaned_entries
         then s\<lparr>unmatched_passengers :=
                   unmatched_passengers s @
                   map (\<lambda>e. entry_to_unmatched (te_trip_id e) (bus_id s)
                               ''Orphaned entry - cleaned up before new trip'' e)
                     orphaned_entries,
                 temp_entries := delete_many (\<lambda>e. te_bus_id e = bus_id s) (temp_entries s)\<rparr>
         else s)"

text \<open>
  \<open>start_new_trip(start_time, initial_gps)\<close>. With a GPS fix the function goes on to call
  \<open>self.route_detector.detect_route_direction\<close>; \<open>RouteDetector\<close> defines no such method
  (and the attribute may be \<open>None\<close>), so the call raises \<open>AttributeError\<close>, the
  \<open>except\<close> clause returns \<open>None\<close>, and what was done before the call stays done.
\<close>

definition start_new_trip :: "tracker \<Rightarrow> int \<Rightarrow> int option \<Rightarrow> (real \<times> real) option
    \<Rightarrow> trip_id option \<times> tracker" where
  "start_new_trip s now start_time_arg initial_gps =
     (let start_time = (case start_time_arg of None \<Rightarrow> now | Some t \<Rightarrow> t);
          s1 = (if trip_active s then snd (end_current_trip s now) else s);
          s2 = cleanup_orphans s1;
          trip_id = generate_trip_id s2 start_time
      in case initial_gps of
           Some gps \<Rightarrow> (None, s2)
         | None \<Rightarrow>
             (let trip_session =
                    \<lparr>ts_oid = next_oid s2, ts_trip_id = trip_id, ts_bus_id = bus_id s2,
                     ts_start_time = start_time, ts_end_time = None, ts_status = Active,
                     ts_total_passengers = 0, ts_total_unmatched = 0\<rparr>
              in (Some trip_id,
                  s2\<lparr>trip_sessions := trip_sessions s2 @ [trip_session],
                     next_oid := Suc (next_oid s2),
                     current_trip :=
                       Some \<lparr>ct_trip_id = trip_id, ct_start_time = start_time,
                             ct_status = Active, ct_oid = next_oid s2\<rparr>\<rparr>)))"

subsection \<open>\<open>check_season_ticket_member\<close>\<close>

fun season_loop :: "real \<Rightarrow> real list \<Rightarrow> season_member list \<Rightarrow> season_member option \<Rightarrow> real
    \<Rightarrow> error + (season_member option \<times> real)" where
  "season_loop threshold input [] best_match best_similarity =
     Inr (best_match, best_similarity)"
| "season_loop threshold input (member # members) best_match best_similarity =
     (if sm_face_embedding member = []
      then season_loop threshold input members best_match best_similarity
      else
        (case cosine_similarity input (sm_face_embedding member) of
           Inl e \<Rightarrow> Inl e
         | Inr similarity \<Rightarrow>
             (if best_similarity < similarity
              then season_loop threshold input members
                     (if threshold < similarity then Some member else best_match) similarity
              else season_loop threshold input members best_match best_similarity)))"

definition check_season_ticket_member :: "tracker \<Rightarrow> int \<Rightarrow> real list
    \<Rightarrow> season_member option \<times> real" where
  "check_season_ticket_member s now face_embedding =
     (if face_embedding = [] then (None, 0)
      else
        (let all_active_members =
               filter (\<lambda>m. sm_is_active m \<and> sm_valid_from m \<le> now \<and> now \<le> sm_valid_until m
                            \<and> sm_face_embedding m \<noteq> [])
                 (season_ticket_members s)
         in if all_active_members = [] then (None, 0)
            else
              (case season_loop (season_ticket_similarity_threshold s) face_embedding
                      all_active_members None 0 of
                 Inl e \<Rightarrow> (None, 0)
               | Inr (Some best_match, best_similarity) \<Rightarrow> (Some best_match, best_similarity)
               | Inr (None, best_similarity) \<Rightarrow> (None, 0))))"

subsection \<open>\<open>is_route_valid_for_season_ticket\<close>\<close>

fun fallback_route_validation :: "string \<Rightarrow> valid_route list \<Rightarrow> bool" where
  "fallback_route_validation rn [] = False"
| "fallback_route_validation rn (valid_route # rest) =
     (if route_patterns valid_route = []
      then
        (if py_in (lower (from_location valid_route)) (lower rn)
            \<and> py_in (lower (to_location valid_route)) (lower rn)
         then True
         else fallback_route_validation rn rest)
      else
        (if list_ex (\<lambda>pattern. py_in (lower pattern) (lower rn) \<or> py_in (lower rn) (lower pattern))
              (route_patterns valid_route)
         then True
         else fallback_route_validation rn rest))"

text \<open>
  \<open>gps_verdict\<close> stands for the route detector: \<open>None\<close> when \<open>self.route_detector\<close> is
  \<open>None\<close>, else the verdict \<open>find_matching_season_ticket_routes\<close> returns for this
  journey (it catches its own exceptions).
\<close>

definition is_route_valid_for_season_ticket :: "tracker \<Rightarrow> bool option \<Rightarrow> season_member
    \<Rightarrow> real \<times> real \<Rightarrow> real \<times> real \<Rightarrow> bool" where
  "is_route_valid_for_season_ticket s gps_verdict member entry_location exit_location =
     (if sm_valid_routes member = [] then True
      else if fst entry_location = 0 \<or> snd entry_location = 0
              \<or> fst exit_location = 0 \<or> snd exit_location = 0
      then fallback_route_validation (route_name s) (sm_valid_routes member)
      else
        (case gps_verdict of
           Some verdict \<Rightarrow> verdict
         | None \<Rightarrow> fallback_route_validation (route_name s) (sm_valid_routes member)))"

subsection \<open>\<open>find_matching_entry\<close>\<close>

text \<open>The query for the open entries of the current trip, newest first.\<close>

definition entries_list :: "tracker \<Rightarrow> int \<Rightarrow> trip_ref \<Rightarrow> temp_entry list" where
  "entries_list s now ct =
     (let time_threshold = now - time_window_hours s * 3600
      in sort_key (\<lambda>e. - te_entry_timestamp e)
           (filter (\<lambda>e. te_trip_id e = ct_trip_id ct \<and> te_bus_id e = bus_id s
                        \<and> time_threshold \<le> te_entry_timestamp e
                        \<and> te_face_embedding e \<noteq> [])
              (temp_entries s)))"

text \<open>The matching loop: \<open>best_similarity\<close> moves only together with \<open>best_match\<close>.\<close>

fun match_loop :: "real \<Rightarrow> real list \<Rightarrow> temp_entry list \<Rightarrow> temp_entry option \<Rightarrow> real
    \<Rightarrow> error + (temp_entry option \<times> real)" where
  "match_loop threshold exit_embedding [] best_match best_similarity =
     Inr (best_match, best_similarity)"
| "match_loop threshold exit_embedding (entry # entries) best_match best_similarity =
     (if te_face_embedding entry = []
      then match_loop threshold exit_embedding entries best_match best_similarity
      else
        (case cosine_similarity exit_embedding (te_face_embedding entry) of
           Inl e \<Rightarrow> Inl e
         | Inr similarity \<Rightarrow>
             (if best_similarity < similarity \<and> threshold < similarity
              then match_loop threshold exit_embedding entries (Some entry) similarity
              else match_loop threshold exit_embedding entries best_match best_similarity)))"

text \<open>
  \<open>distance_km\<close> stands for the road-distance provider: \<open>None\<close> when
  \<open>calculate_road_distance\<close> returns no result, else the \<open>distance_km\<close> of its result.
\<close>

definition find_matching_entry :: "tracker \<Rightarrow> int \<Rightarrow> face_log \<Rightarrow> real option \<Rightarrow> bool option
    \<Rightarrow> final_passenger option \<times> real \<times> tracker" where
  "find_matching_entry s now exit_log distance_km gps_verdict =
     (if log_face_embedding exit_log = [] then (None, 0, s)
      else
        (case current_trip s of
           None \<Rightarrow> (None, 0, s)
         | Some ct \<Rightarrow>
             (if ct_status ct = Active
              then
                (let entries = entries_list s now ct
                 in if entries = [] then (None, 0, s)
                    else
                      (case match_loop (similarity_threshold s) (log_face_embedding exit_log)
                              entries None 0 of
                         Inl e \<Rightarrow> (None, 0, s)
                       | Inr (None, best_similarity) \<Rightarrow> (None, best_similarity, s)
                       | Inr (Some best_match, best_similarity) \<Rightarrow>
                           (let passenger_id = Suc (length (final_passengers s));
                                season = check_season_ticket_member s now
                                           (log_face_embedding exit_log);
                                km = (case distance_km of None \<Rightarrow> 0 | Some d \<Rightarrow> d);
                                route_ok =
                                  (case fst season of
                                     None \<Rightarrow> False
                                   | Some season_member \<Rightarrow>
                                       is_route_valid_for_season_ticket s gps_verdict season_member
                                         (te_latitude best_match, te_longitude best_match)
                                         (log_latitude exit_log, log_longitude exit_log));
                                price =
                                  (if route_ok then 0
                                   else calculate_fare (fareStages s) (PyNum km));
                                stage_number = (if 0 < km then \<lceil>km / 3.5\<rceil> else 0);
                                exit_timestamp = parse_timestamp_safe now (log_timestamp exit_log);
                                final_passenger =
                                  \<lparr>fp_id = passenger_id,
                                   fp_trip_id = ct_trip_id ct,
                                   fp_bus_id = bus_id s,
                                   fp_is_season_ticket = route_ok,
                                   fp_season_member_id =
                                     (if route_ok then map_option sm_member_id (fst season)
                                      else None),
                                   fp_entry_timestamp = te_entry_timestamp best_match,
                                   fp_exit_timestamp = exit_timestamp,
                                   fp_journey_duration_minutes =
                                     of_int (exit_timestamp - te_entry_timestamp best_match) / 60,
                                   fp_similarity_score = best_similarity,
                                   fp_entry_face_id = te_face_id best_match,
                                   fp_exit_face_id = log_face_id exit_log,
                                   fp_distance_km = distance_km,
                                   fp_price = price,
                                   fp_stage_number = stage_number\<rparr>;
                                members =
                                  (case fst season of
                                     None \<Rightarrow> season_ticket_members s
                                   | Some season_member \<Rightarrow>
                                       (if route_ok
                                        then update_one (\<lambda>m. sm_oid m = sm_oid season_member)
                                               (\<lambda>m. m\<lparr>sm_total_trips := Suc (sm_total_trips m),
                                                       sm_last_used := Some now\<rparr>)
                                               (season_ticket_members s)
                                        else season_ticket_members s))
                            in (Some final_passenger, best_similarity,
                                s\<lparr>season_ticket_members := members,
                                   final_passengers := final_passengers s @ [final_passenger],
                                   temp_entries :=
                                     delete_one (\<lambda>e. te_oid e = te_oid best_match)
                                       (temp_entries s)\<rparr>))))
              else (None, 0, s))))"

subsection \<open>\<open>store_unmatched_exit\<close>, \<open>store_entry\<close> and \<open>process_face_log\<close>\<close>

definition store_unmatched_exit :: "tracker \<Rightarrow> int \<Rightarrow> face_log \<Rightarrow> real \<Rightarrow> bool \<times> tracker" where
  "store_unmatched_exit s now exit_log best_similarity =
     (case current_trip s of
        None \<Rightarrow> (False, s)
      | Some ct \<Rightarrow>
          (if ct_status ct = Active
           then
             (True,
              s\<lparr>unmatched_passengers :=
                   unmatched_passengers s @
                   [\<lparr>um_trip_id = ct_trip_id ct, um_bus_id = bus_id s, um_type = EXIT,
                     um_face_id = log_face_id exit_log,
                     um_face_embedding = log_face_embedding exit_log,
                     um_latitude = log_latitude exit_log,
                     um_longitude = log_longitude exit_log,
                     um_timestamp = parse_timestamp_safe now (log_timestamp exit_log),
                     um_best_similarity_found = best_similarity,
                     um_reason = ''No matching entry found''\<rparr>]\<rparr>)
           else (False, s)))"

text \<open>
  \<open>store_entry\<close>. The season-ticket check at entry only tags the stored document (a field
  left out of \<open>temp_entry\<close>) and changes no state.
\<close>

definition store_entry :: "tracker \<Rightarrow> int \<Rightarrow> face_log \<Rightarrow> nat option \<times> tracker" where
  "store_entry s now log_entry =
     (let s1 = (if trip_active s then s else snd (start_new_trip s now None None))
      in case current_trip s1 of
           None \<Rightarrow> (None, s1)
         | Some ct \<Rightarrow>
             (Some (next_oid s1),
              s1\<lparr>temp_entries :=
                    temp_entries s1 @
                    [\<lparr>te_oid = next_oid s1, te_trip_id = ct_trip_id ct, te_bus_id = bus_id s1,
                      te_face_id = log_face_id log_entry,
                      te_face_embedding = log_face_embedding log_entry,
                      te_latitude = log_latitude log_entry,
                      te_longitude = log_longitude log_entry,
                      te_entry_timestamp =
                        parse_timestamp_safe now (log_timestamp log_entry)\<rparr>],
                  next_oid := Suc (next_oid s1)\<rparr>))"

definition upper :: "string \<Rightarrow> string" where
  "upper s =
     map (\<lambda>c. case map_of (zip ''abcdefghijklmnopqrstuvwxyz'' ''ABCDEFGHIJKLMNOPQRSTUVWXYZ'') c of
                 Some u \<Rightarrow> u
               | None \<Rightarrow> c) s"

datatype action =
    StoredEntry nat
  | MatchedJourney final_passenger real
  | UnmatchedExit real bool
  | ActionError

definition process_face_log :: "tracker \<Rightarrow> int \<Rightarrow> face_log \<Rightarrow> real option \<Rightarrow> bool option
    \<Rightarrow> action \<times> tracker" where
  "process_face_log s now log_entry distance_km gps_verdict =
     (let location_type = upper (log_location_type log_entry)
      in if location_type = ''ENTRY''
         then
           (case store_entry s now log_entry of
              (Some entry_id, s') \<Rightarrow> (StoredEntry entry_id, s')
            | (None, s') \<Rightarrow> (ActionError, s'))
         else if location_type = ''EXIT''
         then
           (case find_matching_entry s now log_entry distance_km gps_verdict of
              (Some match_result, similarity, s') \<Rightarrow> (MatchedJourney match_result similarity, s')
            | (None, similarity, s') \<Rightarrow>
                (case store_unmatched_exit s' now log_entry similarity of
                   (stored, s'') \<Rightarrow> (UnmatchedExit similarity stored, s'')))
         else (ActionError, s))"

text \<open>The trip sessions of this tracker's bus that are marked active.\<close>

definition active_sessions :: "tracker \<Rightarrow> trip_session list" where
  "active_sessions s =
     filter (\<lambda>t. ts_bus_id t = bus_id s \<and> ts_status t = Active) (trip_sessions s)"

section \<open>A fixture for the scenarios\<close>

text \<open>
  One bus on an active trip with one open entry, as the scenarios of the specification
  describe it: thresholds 0.7 and 0.65 and a 48 hour window are the values set in
  \<open>__init__\<close>.
\<close>

definition scenario_trip :: trip_ref where
  "scenario_trip =
     \<lparr>ct_trip_id = TripId ''BUS_JC_001'' 100, ct_start_time = 6000, ct_status = Active,
      ct_oid = 0\<rparr>"

definition scenario_entry :: temp_entry where
  "scenario_entry =
     \<lparr>te_oid = 1, te_trip_id = TripId ''BUS_JC_001'' 100, te_bus_id = ''BUS_JC_001'',
      te_face_id = 1, te_face_embedding = [1, 1, 1, 1], te_latitude = 9, te_longitude = 80,
      te_entry_timestamp = 6100\<rparr>"

definition scenario_tracker :: tracker where
  "scenario_tracker =
     \<lparr>bus_id = ''BUS_JC_001'', route_name = ''Jaffna-Colombo'',
      similarity_threshold = 0.7, season_ticket_similarity_threshold = 0.65,
      time_window_hours = 48,
      current_trip = Some scenario_trip,
      temp_entries = [scenario_entry],
      final_passengers = [], unmatched_passengers = [],
      trip_sessions =
        [\<lparr>ts_oid = 0, ts_trip_id = TripId ''BUS_JC_001'' 100, ts_bus_id = ''BUS_JC_001'',
          ts_start_time = 6000, ts_end_time = None, ts_status = Active,
          ts_total_passengers = 0, ts_total_unmatched = 0\<rparr>],
      season_ticket_members = [], fareStages = Inr [], next_oid = 2\<rparr>"

definition scenario_exit :: "real list \<Rightarrow> face_log" where
  "scenario_exit embedding =
     \<lparr>log_location_type = ''EXIT'', log_face_id = 2, log_face_embedding = embedding,
      log_latitude = 9.05, log_longitude = 80, log_timestamp = None\<rparr>"

text \<open>A season-ticket member without route restrictions, valid at the time of the scenarios.\<close>

definition scenario_member :: season_member where
  "scenario_member =
     \<lparr>sm_oid = 5, sm_member_id = ''ST001'', sm_face_embedding = [1, 1, 1, 1],
      sm_is_active = True, sm_valid_from = 0, sm_valid_until = 10000,
      sm_valid_routes = [], sm_total_trips = 0, sm_last_used = None\<rparr>"

text \<open>
  The route of the scenarios, reduced to its two terminals: Jaffna is stop 1 and Colombo
  stop 8, each placed at the coordinates the static table of
  \<open>_check_location_proximity\<close> gives for it.
\<close>

definition jaffna_stop :: bus_stop where
  "jaffna_stop =
     \<lparr>stop_name = ''Jaffna'', stop_latitude = Some 9.6615, stop_longitude = Some 80.0255,
      stop_order = Some 1\<rparr>"

definition colombo_stop :: bus_stop where
  "colombo_stop =
     \<lparr>stop_name = ''Colombo'', stop_latitude = Some 6.9271, stop_longitude = Some 79.8612,
      stop_order = Some 8\<rparr>"

definition jaffna_colombo_route :: bus_route where
  "jaffna_colombo_route =
     \<lparr>br_route_name = ''Jaffna-Colombo'', br_is_active = True,
      br_stops = [jaffna_stop, colombo_stop]\<rparr>"

text \<open>
  The invariant of the trip ledger: session ids are unique and below the id supply, and
  the sessions of this bus that are marked active are exactly the one \<open>current_trip\<close>
  refers to, or none when there is no current trip.
\<close>

definition trip_inv :: "tracker \<Rightarrow> bool" where
  "trip_inv s =
     (distinct (map ts_oid (trip_sessions s)) \<and>
      list_all (\<lambda>t. ts_oid t < next_oid s) (trip_sessions s) \<and>
      (case current_trip s of
         None \<Rightarrow> active_sessions s = []
       | Some ct \<Rightarrow> ct_status ct = Active \<and> map ts_oid (active_sessions s) = [ct_oid ct]))"

section \<open>Properties of the fare calculator\<close>

lemma first_doc_None: "first_doc xs = None \<longleftrightarrow> xs = []"
  by (auto simp: first_doc_def split: list.splits)

lemma first_doc_filter:
  "first_doc (filter P xs) = Some x \<Longrightarrow> x \<in> set xs \<and> P x"
proof -
  assume "first_doc (filter P xs) = Some x"
  then obtain r where "filter P xs = x # r"
    by (auto simp: first_doc_def split: list.splits)
  then have "x \<in> set (filter P xs)" by simp
  then show ?thesis by simp
qed

lemma sort_key_Nil: "sort_key f xs = [] \<longleftrightarrow> xs = []"
proof -
  have "length (sort_key f xs) = length xs" by simp
  then show ?thesis by (metis length_0_conv)
qed

lemma first_doc_sort_key:
  assumes "first_doc (sort_key f xs) = Some x"
  shows "x \<in> set xs \<and> (\<forall>y\<in>set xs. f x \<le> f y)"
proof -
  from assms obtain r where r: "sort_key f xs = x # r"
    by (auto simp: first_doc_def split: list.splits)
  have "set (sort_key f xs) = set xs" by simp
  with r have s: "set xs = insert x (set r)" by auto
  have "sorted (map f (sort_key f xs))" by (rule sorted_sort_key)
  with r have "\<forall>y\<in>set r. f x \<le> f y" by auto
  with s show ?thesis by auto
qed

text \<open>
  With at least one active stage the lookup always lands on an active document: the one
  with the least stage number at or above the requested stage if there is one, else the
  one with the greatest stage number.
\<close>

lemma fare_for_stage_picks:
  assumes ne: "filter fs_is_active tbl \<noteq> []"
  shows "\<exists>fs\<in>set tbl. fs_is_active fs \<and> fare_for_stage tbl n = fs_fare fs \<and>
           (if \<exists>x\<in>set tbl. fs_is_active x \<and> n \<le> fs_stage_number x
            then n \<le> fs_stage_number fs \<and>
                 (\<forall>x\<in>set tbl. fs_is_active x \<and> n \<le> fs_stage_number x
                    \<longrightarrow> fs_stage_number fs \<le> fs_stage_number x)
            else (\<forall>x\<in>set tbl. fs_is_active x \<longrightarrow> fs_stage_number x \<le> fs_stage_number fs))"
proof (cases "find_exact_stage tbl n")
  case (Some fs)
  then have "fs \<in> set tbl \<and> fs_stage_number fs = n \<and> fs_is_active fs"
    unfolding find_exact_stage_def by (auto dest: first_doc_filter)
  moreover have "fare_for_stage tbl n = fs_fare fs"
    using Some by (simp add: fare_for_stage_def)
  ultimately show ?thesis by (intro bexI[of _ fs]) auto
next
  case None
  note ex = None
  show ?thesis
  proof (cases "find_closest_stage tbl n")
    case (Some fs)
    from first_doc_sort_key[OF Some[unfolded find_closest_stage_def]]
    have "fs \<in> set tbl \<and> fs_is_active fs \<and> n \<le> fs_stage_number fs \<and>
          (\<forall>x\<in>set tbl. fs_is_active x \<and> n \<le> fs_stage_number x
             \<longrightarrow> fs_stage_number fs \<le> fs_stage_number x)"
      by auto
    moreover have "fare_for_stage tbl n = fs_fare fs"
      using ex Some by (simp add: fare_for_stage_def)
    ultimately show ?thesis by (intro bexI[of _ fs]) auto
  next
    case None
    then have nohigher: "\<not> (\<exists>x\<in>set tbl. fs_is_active x \<and> n \<le> fs_stage_number x)"
      unfolding find_closest_stage_def first_doc_None sort_key_Nil
      by (auto simp: filter_empty_conv)
    from ne obtain fs where fs: "find_highest_stage tbl = Some fs"
      unfolding find_highest_stage_def
      by (cases "first_doc (sort_key (\<lambda>fs. - fs_stage_number fs) (filter fs_is_active tbl))")
         (auto simp: first_doc_None sort_key_Nil)
    from first_doc_sort_key[OF fs[unfolded find_highest_stage_def]]
    have "fs \<in> set tbl \<and> fs_is_active fs \<and>
          (\<forall>x\<in>set tbl. fs_is_active x \<longrightarrow> fs_stage_number x \<le> fs_stage_number fs)"
      by auto
    moreover have "fare_for_stage tbl n = fs_fare fs"
      using ex None fs by (simp add: fare_for_stage_def)
    ultimately show ?thesis using nohigher by (intro bexI[of _ fs]) auto
  qed
qed

lemma fare_for_stage_empty:
  assumes "filter fs_is_active tbl = []"
  shows "fare_for_stage tbl n = (if n = 1 then 30 else 30 + of_int (n - 1) * 10)"
proof -
  have "find_exact_stage tbl n = None" using assms
    by (auto simp: find_exact_stage_def first_doc_None filter_empty_conv)
  moreover have "find_closest_stage tbl n = None" using assms
    by (auto simp: find_closest_stage_def first_doc_None sort_key_Nil filter_empty_conv)
  moreover have "find_highest_stage tbl = None" using assms
    by (simp add: find_highest_stage_def first_doc_def)
  ultimately show ?thesis by (simp add: fare_for_stage_def)
qed

lemma fare_for_stage_mono:
  assumes mono: "fares_monotone tbl" and le: "n1 \<le> n2"
  shows "fare_for_stage tbl n1 \<le> fare_for_stage tbl n2"
proof (cases "filter fs_is_active tbl = []")
  case True
  then show ?thesis using le by (simp add: fare_for_stage_empty)
next
  case False
  from fare_for_stage_picks[OF False, of n1] obtain a where
    a: "a \<in> set tbl" "fs_is_active a" "fare_for_stage tbl n1 = fs_fare a"
    "if \<exists>x\<in>set tbl. fs_is_active x \<and> n1 \<le> fs_stage_number x
     then n1 \<le> fs_stage_number a \<and>
          (\<forall>x\<in>set tbl. fs_is_active x \<and> n1 \<le> fs_stage_number x
             \<longrightarrow> fs_stage_number a \<le> fs_stage_number x)
     else (\<forall>x\<in>set tbl. fs_is_active x \<longrightarrow> fs_stage_number x \<le> fs_stage_number a)"
    by blast
  from fare_for_stage_picks[OF False, of n2] obtain b where
    b: "b \<in> set tbl" "fs_is_active b" "fare_for_stage tbl n2 = fs_fare b"
    "if \<exists>x\<in>set tbl. fs_is_active x \<and> n2 \<le> fs_stage_number x
     then n2 \<le> fs_stage_number b \<and>
          (\<forall>x\<in>set tbl. fs_is_active x \<and> n2 \<le> fs_stage_number x
             \<longrightarrow> fs_stage_number b \<le> fs_stage_number x)
     else (\<forall>x\<in>set tbl. fs_is_active x \<longrightarrow> fs_stage_number x \<le> fs_stage_number b)"
    by blast
  have "fs_stage_number a \<le> fs_stage_number b"
  proof (cases "\<exists>x\<in>set tbl. fs_is_active x \<and> n2 \<le> fs_stage_number x")
    case True
    with b have "n2 \<le> fs_stage_number b" by simp
    with le have "n1 \<le> fs_stage_number b" by simp
    with a b(1,2) show ?thesis by (auto split: if_splits)
  next
    case False
    with b a(1,2) show ?thesis by (auto split: if_splits)
  qed
  moreover from mono a(1,2) b(1,2)
  have "fs_stage_number b < fs_stage_number a \<or> fs_fare a \<le> fs_fare b"
    by (auto simp: fares_monotone_def list_all_iff)
  ultimately show ?thesis using a(3) b(3) by auto
qed

lemma fare_for_stage_nonneg:
  assumes "fares_nonneg tbl" "1 \<le> n"
  shows "0 \<le> fare_for_stage tbl n"
proof (cases "filter fs_is_active tbl = []")
  case True
  then show ?thesis using assms(2) by (simp add: fare_for_stage_empty)
next
  case False
  from fare_for_stage_picks[OF False, of n] obtain a where
    "a \<in> set tbl" "fs_is_active a" "fare_for_stage tbl n = fs_fare a" by blast
  with assms(1) show ?thesis by (auto simp: fares_nonneg_def list_all_iff)
qed

lemmas fare_eval_defs =
  calculate_fare_def calculate_fare_body_def fare_for_stage_def find_exact_stage_def
  find_closest_stage_def find_highest_stage_def first_doc_def

text \<open>
  C6. \<open>calculate_fare\<close> returns 0 for every distance below 0.1 km; from 0.1 km on it
  looks up the fare of stage \<open>ceil(distance_km / 3.5)\<close>. So 0.05 km is free, 3.5 km is
  charged the fare of stage 1 and 3.51 km the fare of stage 2 (the fare of the active
  document with that stage number when the table has one).
\<close>

theorem calculate_fare_stage_mapping:
  "(d < 0.1 \<longrightarrow> calculate_fare db (PyNum d) = 0) \<and>
   (0.1 \<le> d \<longrightarrow> calculate_fare (Inr tbl) (PyNum d) = fare_for_stage tbl \<lceil>d / 3.5\<rceil>) \<and>
   calculate_fare db (PyNum 0.05) = 0 \<and>
   calculate_fare (Inr tbl) (PyNum 3.5) = fare_for_stage tbl 1 \<and>
   calculate_fare (Inr tbl) (PyNum 3.51) = fare_for_stage tbl 2 \<and>
   (find_exact_stage tbl 1 = Some s1 \<longrightarrow> calculate_fare (Inr tbl) (PyNum 3.5) = fs_fare s1) \<and>
   (find_exact_stage tbl 2 = Some s2 \<longrightarrow> calculate_fare (Inr tbl) (PyNum 3.51) = fs_fare s2)"
  by (auto simp: calculate_fare_def calculate_fare_body_def fare_for_stage_def)

theorem calculate_fare_stage_mapping_witness:
  "calculate_fare
     (Inr [\<lparr>fs_stage_number = 1, fs_is_active = True, fs_fare = 30\<rparr>,
           \<lparr>fs_stage_number = 2, fs_is_active = True, fs_fare = 45\<rparr>]) (PyNum 0.05) = 0 \<and>
   calculate_fare
     (Inr [\<lparr>fs_stage_number = 1, fs_is_active = True, fs_fare = 30\<rparr>,
           \<lparr>fs_stage_number = 2, fs_is_active = True, fs_fare = 45\<rparr>]) (PyNum 3.5) = 30 \<and>
   calculate_fare
     (Inr [\<lparr>fs_stage_number = 1, fs_is_active = True, fs_fare = 30\<rparr>,
           \<lparr>fs_stage_number = 2, fs_is_active = True, fs_fare = 45\<rparr>]) (PyNum 3.51) = 45 \<and>
   calculate_fare
     (Inr [\<lparr>fs_stage_number = 1, fs_is_active = True, fs_fare = 30\<rparr>,
           \<lparr>fs_stage_number = 2, fs_is_active = True, fs_fare = 45\<rparr>]) (PyNum 7) = 45"
  using calculate_fare_stage_mapping
    [of 7
        "Inr [\<lparr>fs_stage_number = 1, fs_is_active = True, fs_fare = 30\<rparr>,
              \<lparr>fs_stage_number = 2, fs_is_active = True, fs_fare = 45\<rparr>]"
        "[\<lparr>fs_stage_number = 1, fs_is_active = True, fs_fare = 30\<rparr>,
          \<lparr>fs_stage_number = 2, fs_is_active = True, fs_fare = 45\<rparr>]"
        "\<lparr>fs_stage_number = 1, fs_is_active = True, fs_fare = 30\<rparr>"
        "\<lparr>fs_stage_number = 2, fs_is_active = True, fs_fare = 45\<rparr>"]
  by (simp add: fare_for_stage_def find_exact_stage_def first_doc_def)

text \<open>
  C7, as stated, fails: the fare is whatever the table holds for the stage, and nothing
  in \<open>calculate_fare\<close> orders the table. With stage 1 at 100 and stage 2 at 50 the
  longer journey is the cheaper one.
\<close>

theorem calculate_fare_not_monotone:
  "(3.5::real) \<le> 3.51 \<and>
   \<not> calculate_fare
        (Inr [\<lparr>fs_stage_number = 1, fs_is_active = True, fs_fare = 100\<rparr>,
              \<lparr>fs_stage_number = 2, fs_is_active = True, fs_fare = 50\<rparr>]) (PyNum 3.5)
      \<le> calculate_fare
        (Inr [\<lparr>fs_stage_number = 1, fs_is_active = True, fs_fare = 100\<rparr>,
              \<lparr>fs_stage_number = 2, fs_is_active = True, fs_fare = 50\<rparr>]) (PyNum 3.51)"
  by (simp add: fare_eval_defs)

text \<open>
  C7, amended. When the active fares are non-negative and do not decrease with the stage
  number, \<open>calculate_fare\<close> is monotone in the distance. A table with no active stage
  satisfies both conditions, so the hardcoded fallback (30 for stage 1, 10 more for each
  further stage) is monotone.
\<close>

theorem calculate_fare_monotone:
  assumes "fares_monotone tbl" "fares_nonneg tbl" "d1 \<le> d2"
  shows "calculate_fare (Inr tbl) (PyNum d1) \<le> calculate_fare (Inr tbl) (PyNum d2)"
proof -
  have st: "0.1 \<le> d \<Longrightarrow> 1 \<le> \<lceil>d / 3.5\<rceil>" for d :: real
    by simp
  have cm: "\<lceil>d1 / 3.5\<rceil> \<le> \<lceil>d2 / 3.5\<rceil>"
    using assms(3) by (intro ceiling_mono) simp
  show ?thesis
    using assms fare_for_stage_mono[OF assms(1) cm]
      fare_for_stage_nonneg[OF assms(2) st[of d2]]
    by (auto simp: calculate_fare_def calculate_fare_body_def)
qed

theorem calculate_fare_monotone_witness:
  "fares_monotone
     [\<lparr>fs_stage_number = 1, fs_is_active = True, fs_fare = 30\<rparr>,
      \<lparr>fs_stage_number = 2, fs_is_active = True, fs_fare = 45\<rparr>] \<and>
   fares_nonneg
     [\<lparr>fs_stage_number = 1, fs_is_active = True, fs_fare = 30\<rparr>,
      \<lparr>fs_stage_number = 2, fs_is_active = True, fs_fare = 45\<rparr>] \<and>
   (2::real) \<le> 8 \<and>
   calculate_fare
     (Inr [\<lparr>fs_stage_number = 1, fs_is_active = True, fs_fare = 30\<rparr>,
           \<lparr>fs_stage_number = 2, fs_is_active = True, fs_fare = 45\<rparr>]) (PyNum 2)
   \<le> calculate_fare
     (Inr [\<lparr>fs_stage_number = 1, fs_is_active = True, fs_fare = 30\<rparr>,
           \<lparr>fs_stage_number = 2, fs_is_active = True, fs_fare = 45\<rparr>]) (PyNum 8) \<and>
   calculate_fare
     (Inr [\<lparr>fs_stage_number = 1, fs_is_active = True, fs_fare = 30\<rparr>,
           \<lparr>fs_stage_number = 2, fs_is_active = True, fs_fare = 45\<rparr>]) (PyNum 8) = 45 \<and>
   fares_monotone [] \<and> fares_nonneg [] \<and>
   calculate_fare (Inr []) (PyNum 2) = 30 \<and> calculate_fare (Inr []) (PyNum 8) = 50 \<and>
   calculate_fare (Inr []) (PyNum 2) \<le> calculate_fare (Inr []) (PyNum 8)"
proof -
  let ?t = "[\<lparr>fs_stage_number = 1, fs_is_active = True, fs_fare = 30\<rparr>,
             \<lparr>fs_stage_number = 2, fs_is_active = True, fs_fare = 45\<rparr>]"
  have m: "fares_monotone ?t" by (simp add: fares_monotone_def)
  have n: "fares_nonneg ?t" by (simp add: fares_nonneg_def)
  have h1: "fares_monotone []" by (simp add: fares_monotone_def)
  have h2: "fares_nonneg []" by (simp add: fares_nonneg_def)
  have h3: "(2::real) \<le> 8" by simp
  have v: "calculate_fare (Inr ?t) (PyNum 8) = 45" by (simp add: fare_eval_defs)
  have e: "calculate_fare (Inr []) (PyNum 2) = 30" "calculate_fare (Inr []) (PyNum 8) = 50"
    by (simp_all add: fare_eval_defs)
  from m n h1 h2 h3 v e calculate_fare_monotone[OF m n h3] calculate_fare_monotone[OF h1 h2 h3]
  show ?thesis by simp
qed

section \<open>Properties of the distance functions\<close>

lemma haversine_same_point: "haversine_distance lat lon lat lon = 0"
  by (simp add: haversine_distance_def)

lemma arcsin_sqrt_sin_sq:
  assumes "\<bar>x\<bar> \<le> pi / 2"
  shows "arcsin (sqrt ((sin x)\<^sup>2)) = \<bar>x\<bar>"
proof -
  have a: "sqrt ((sin x)\<^sup>2) = \<bar>sin x\<bar>" by (rule real_sqrt_abs)
  have b: "\<bar>sin x\<bar> = sin \<bar>x\<bar>"
  proof (cases "0 \<le> x")
    case True
    have "x \<le> pi" using assms True pi_gt_zero by linarith
    then have "0 \<le> sin x" by (rule sin_ge_zero[OF True])
    then show ?thesis using True by simp
  next
    case False
    then have n: "0 \<le> - x" by simp
    have "- x \<le> pi" using assms False pi_gt_zero by linarith
    then have "0 \<le> sin (- x)" by (rule sin_ge_zero[OF n])
    then have "sin x \<le> 0" by simp
    then show ?thesis using False by (simp add: abs_if)
  qed
  have c: "- (pi / 2) \<le> \<bar>x\<bar>" using pi_gt_zero by linarith
  have "arcsin (sin \<bar>x\<bar>) = \<bar>x\<bar>" by (rule arcsin_sin[OF c assms])
  with a b show ?thesis by simp
qed

text \<open>On one meridian the distance is the arc between the two latitudes.\<close>

lemma haversine_same_meridian:
  assumes "\<bar>lat2 - lat1\<bar> \<le> 180"
  shows "haversine_distance lat1 lon lat2 lon = 6371 * (\<bar>lat2 - lat1\<bar> * pi / 180)"
proof -
  define x where "x = (radians lat2 - radians lat1) / 2"
  have xe: "x = (lat2 - lat1) * (pi / 360)"
    unfolding x_def radians_def by (simp add: field_simps)
  have xa: "\<bar>x\<bar> = \<bar>lat2 - lat1\<bar> * (pi / 360)"
    unfolding xe by (simp add: abs_mult)
  have "\<bar>lat2 - lat1\<bar> * (pi / 360) \<le> 180 * (pi / 360)"
    using assms by (rule mult_right_mono) simp
  then have b: "\<bar>x\<bar> \<le> pi / 2" unfolding xa by simp
  have h: "haversine_distance lat1 lon lat2 lon = 6371 * (2 * arcsin (sqrt ((sin x)\<^sup>2)))"
    unfolding haversine_distance_def Let_def x_def by simp
  show ?thesis unfolding h arcsin_sqrt_sin_sq[OF b] xa by simp
qed

lemma dist_near: "haversine_distance 9 80 9.05 80 \<le> 10" "0 < haversine_distance 9 80 9.05 80"
proof -
  have e: "haversine_distance 9 80 9.05 80 = 6371 * (\<bar>9.05 - 9\<bar> * pi / 180)"
    by (rule haversine_same_meridian) simp
  have "pi < 4" by (rule pi_less_4)
  then show "haversine_distance 9 80 9.05 80 \<le> 10" unfolding e by simp
  show "0 < haversine_distance 9 80 9.05 80" unfolding e by simp
qed

text \<open>
  Between two points of any longitudes the distance is at least the arc between the two
  latitudes.
\<close>

lemma haversine_lower_bound:
  assumes "\<bar>lat1\<bar> \<le> 90" and "\<bar>lat2\<bar> \<le> 90"
  shows "6371 * (\<bar>lat2 - lat1\<bar> * pi / 180) \<le> haversine_distance lat1 lon1 lat2 lon2"
proof -
  define p1 where "p1 = radians lat1"
  define p2 where "p2 = radians lat2"
  define x where "x = (p2 - p1) / 2"
  define y where "y = (radians lon2 - radians lon1) / 2"
  define a where "a = (sin x)\<^sup>2 + cos p1 * cos p2 * (sin y)\<^sup>2"
  have pa: "\<bar>p1\<bar> = \<bar>lat1\<bar> * (pi / 180)" "\<bar>p2\<bar> = \<bar>lat2\<bar> * (pi / 180)"
    unfolding p1_def p2_def radians_def by (simp_all add: abs_mult)
  have "\<bar>lat1\<bar> * (pi / 180) \<le> 90 * (pi / 180)"
    using assms(1) by (rule mult_right_mono) simp
  then have b1: "\<bar>p1\<bar> \<le> pi / 2" unfolding pa by simp
  have "\<bar>lat2\<bar> * (pi / 180) \<le> 90 * (pi / 180)"
    using assms(2) by (rule mult_right_mono) simp
  then have b2: "\<bar>p2\<bar> \<le> pi / 2" unfolding pa by simp
  have c1: "0 \<le> cos p1" using b1 by (intro cos_ge_zero) linarith+
  have c2: "0 \<le> cos p2" using b2 by (intro cos_ge_zero) linarith+
  have c: "0 \<le> cos p1 * cos p2" using c1 c2 by (rule mult_nonneg_nonneg)
  have "\<bar>p2 - p1\<bar> \<le> \<bar>p2\<bar> + \<bar>p1\<bar>" by (rule abs_triangle_ineq4)
  with b1 b2 have "\<bar>p2 - p1\<bar> \<le> pi" by linarith
  then have xb: "\<bar>x\<bar> \<le> pi / 2" unfolding x_def by simp
  have xe: "x = (lat2 - lat1) * (pi / 360)"
    unfolding x_def p1_def p2_def radians_def by (simp add: field_simps)
  have xa: "\<bar>x\<bar> = \<bar>lat2 - lat1\<bar> * (pi / 360)"
    unfolding xe by (simp add: abs_mult)
  have lo: "(sin x)\<^sup>2 \<le> a"
    unfolding a_def using c by (simp add: mult_nonneg_nonneg)
  have e1: "cos p1 * cos p2 = (cos (p1 - p2) + cos (p1 + p2)) / 2" by (rule cos_times_cos)
  have "p1 - p2 = - (2 * x)" unfolding x_def by (simp add: field_simps)
  then have "cos (p1 - p2) = cos (2 * x)" by simp
  then have e2: "cos (p1 - p2) = 1 - 2 * (sin x)\<^sup>2" by (simp add: cos_double_sin)
  have "cos (p1 + p2) \<le> 1" by (rule cos_le_one)
  then have c12: "cos p1 * cos p2 \<le> 1 - (sin x)\<^sup>2" unfolding e1 e2 by simp
  have "\<bar>sin y\<bar> \<le> 1" by (rule abs_sin_le_one)
  then have sy: "(sin y)\<^sup>2 \<le> 1" by (simp add: abs_square_le_1)
  have "cos p1 * cos p2 * (sin y)\<^sup>2 \<le> cos p1 * cos p2 * 1"
    using sy c by (rule mult_left_mono)
  with c12 have hi: "a \<le> 1" unfolding a_def by simp
  have s0: "- 1 \<le> sqrt ((sin x)\<^sup>2)" by simp
  have s1: "sqrt ((sin x)\<^sup>2) \<le> sqrt a" using lo by (simp del: real_sqrt_abs)
  have s2: "sqrt a \<le> 1" using hi by simp
  have "arcsin (sqrt ((sin x)\<^sup>2)) \<le> arcsin (sqrt a)" by (rule arcsin_le_arcsin[OF s0 s1 s2])
  then have m: "\<bar>x\<bar> \<le> arcsin (sqrt a)" unfolding arcsin_sqrt_sin_sq[OF xb] .
  have h: "haversine_distance lat1 lon1 lat2 lon2 = 6371 * (2 * arcsin (sqrt a))"
    unfolding haversine_distance_def Let_def a_def x_def y_def p1_def p2_def by simp
  from m show ?thesis unfolding h xa by (simp add: mult.commute)
qed

lemma colombo_jaffna_far:
  "\<not> haversine_distance 6.9271 79.8612 9.6615 80.0255 \<le> 10"
  "\<not> haversine_distance 9.6615 80.0255 6.9271 79.8612 \<le> 10"
proof -
  have p: "2 \<le> pi" by (rule pi_ge_two)
  have "6371 * (\<bar>9.6615 - 6.9271\<bar> * pi / 180) \<le> haversine_distance 6.9271 79.8612 9.6615 80.0255"
    by (rule haversine_lower_bound) simp_all
  with p show "\<not> haversine_distance 6.9271 79.8612 9.6615 80.0255 \<le> 10" by simp
  have "6371 * (\<bar>6.9271 - 9.6615\<bar> * pi / 180) \<le> haversine_distance 9.6615 80.0255 6.9271 79.8612"
    by (rule haversine_lower_bound) simp_all
  with p show "\<not> haversine_distance 9.6615 80.0255 6.9271 79.8612 \<le> 10" by simp
qed

text \<open>
  C2, as stated, fails on \<open>calculate_haversine_distance\<close>: with \<open>None\<close> as a latitude
  the conversion raises \<open>TypeError\<close> inside the \<open>try\<close> block, and the function returns
  the distance 0 to its caller. (The string conversion is not consulted on this input.)
\<close>

theorem haversine_invalid_input_returns_zero:
  "haversine_try Map.empty PyNone (PyNum 80) (PyNum 9) (PyNum 80) = Inl TypeError \<and>
   calculate_haversine_distance Map.empty PyNone (PyNum 80) (PyNum 9) (PyNum 80) = 0"
  by (simp add: calculate_haversine_distance_def haversine_try_def py_float_def)

text \<open>
  C2, amended. When the conversion of any of the four coordinates fails, neither distance
  function raises: \<open>calculate_haversine_distance\<close> returns 0 and
  \<open>RouteDetector.calculate_distance\<close> returns infinity.
\<close>

theorem haversine_invalid_input_sentinels:
  assumes "isl (py_float p lat1) \<or> isl (py_float p lon1) \<or>
           isl (py_float p lat2) \<or> isl (py_float p lon2)"
  shows "calculate_haversine_distance p lat1 lon1 lat2 lon2 = 0 \<and>
         calculate_distance p lat1 lon1 lat2 lon2 = Infinity"
proof -
  from assms have "isl (haversine_try p lat1 lon1 lat2 lon2)"
    by (auto simp: haversine_try_def split: sum.splits)
  then show ?thesis
    by (auto simp: calculate_haversine_distance_def calculate_distance_def split: sum.splits)
qed

theorem haversine_invalid_input_sentinels_witness:
  "isl (py_float Map.empty (PyStr ''north'')) \<and>
   calculate_haversine_distance Map.empty (PyNum 9) (PyNum 80) (PyStr ''north'') (PyNum 80) = 0 \<and>
   calculate_distance Map.empty (PyNum 9) (PyNum 80) (PyStr ''north'') (PyNum 80) = Infinity"
proof -
  have h: "isl (py_float Map.empty (PyStr ''north''))" by (simp add: py_float_def)
  then have "isl (py_float Map.empty (PyNum 9)) \<or> isl (py_float Map.empty (PyNum 80)) \<or>
             isl (py_float Map.empty (PyStr ''north'')) \<or> isl (py_float Map.empty (PyNum 80))"
    by simp
  from haversine_invalid_input_sentinels[OF this] h show ?thesis by simp
qed

section \<open>Properties of segment matching\<close>

lemma find_stops_acc:
  "find_stops ela elo xla xlo stops es xs =
     ((case es of None \<Rightarrow> List.find (stop_within ela elo) stops | Some e \<Rightarrow> Some e),
      (case xs of None \<Rightarrow> List.find (stop_within xla xlo) stops | Some x \<Rightarrow> Some x))"
proof (induction stops arbitrary: es xs)
  case Nil
  show ?case by (simp split: option.splits)
next
  case (Cons stop stops)
  show ?case
    by (cases es; cases xs) (simp_all add: Cons.IH stop_within_def Let_def)
qed

text \<open>
  C3, as stated, fails. A route lists stop A 0.05 degrees of latitude north of the entry
  point and then stop B at the entry point itself. Both are within the threshold, B is
  strictly nearer, and the loop keeps A because it comes first.
\<close>

theorem find_stops_not_nearest:
  "fst (find_stops 9 80 9 80
     [\<lparr>stop_name = ''A'', stop_latitude = Some 9.05, stop_longitude = Some 80,
        stop_order = Some 1\<rparr>,
      \<lparr>stop_name = ''B'', stop_latitude = Some 9, stop_longitude = Some 80,
        stop_order = Some 2\<rparr>] None None)
   = Some \<lparr>stop_name = ''A'', stop_latitude = Some 9.05, stop_longitude = Some 80,
            stop_order = Some 1\<rparr> \<and>
   haversine_distance 9 80 9 80 \<le> PROXIMITY_THRESHOLD_KM \<and>
   haversine_distance 9 80 9 80 < haversine_distance 9 80 9.05 80"
  using dist_near
  by (simp add: coord_falsy_def PROXIMITY_THRESHOLD_KM_def Let_def haversine_same_point)

text \<open>
  C3, amended. For the entry point and for the exit point, segment matching selects the
  first stop in the route's stop list that has both coordinates and lies within the 10 km
  capture radius of the point, or none when the route has no such stop.
\<close>

theorem find_stops_first_within:
  "find_stops entry_lat entry_lon exit_lat exit_lon stops None None =
     (List.find (stop_within entry_lat entry_lon) stops,
      List.find (stop_within exit_lat exit_lon) stops)"
  by (simp add: find_stops_acc)

theorem find_stops_first_within_witness:
  "find_stops 9 80 9 80
     [\<lparr>stop_name = ''A'', stop_latitude = Some 9.05, stop_longitude = Some 80,
        stop_order = Some 1\<rparr>,
      \<lparr>stop_name = ''B'', stop_latitude = Some 9, stop_longitude = Some 80,
        stop_order = Some 2\<rparr>] None None
   = (Some \<lparr>stop_name = ''A'', stop_latitude = Some 9.05, stop_longitude = Some 80,
             stop_order = Some 1\<rparr>,
      Some \<lparr>stop_name = ''A'', stop_latitude = Some 9.05, stop_longitude = Some 80,
             stop_order = Some 1\<rparr>)"
  using dist_near(1)
    find_stops_first_within[of 9 80 9 80
      "[\<lparr>stop_name = ''A'', stop_latitude = Some 9.05, stop_longitude = Some 80,
          stop_order = Some 1\<rparr>,
        \<lparr>stop_name = ''B'', stop_latitude = Some 9, stop_longitude = Some 80,
          stop_order = Some 2\<rparr>]"]
  by (simp add: stop_within_def coord_falsy_def PROXIMITY_THRESHOLD_KM_def)

lemma match_route_stops_order:
  "match_route_stops ela elo xla xlo vrs route = Some info \<Longrightarrow>
   \<exists>rn en xn eo xo. info = RouteStops rn en xn eo xo \<and> eo < xo"
  by (auto simp: match_route_stops_def Let_def split: if_splits prod.splits option.splits)

lemma match_routes_order:
  "match_routes ela elo xla xlo vrs routes = Some info \<Longrightarrow>
   \<exists>rn en xn eo xo. info = RouteStops rn en xn eo xo \<and> eo < xo"
proof (induction routes)
  case Nil
  then show ?case by simp
next
  case (Cons r rs)
  then show ?case
    by (cases "match_route_stops ela elo xla xlo vrs r") (auto dest: match_route_stops_order)
qed

lemma match_known_locations_not_stops:
  "match_known_locations ela elo xla xlo vrs \<noteq> RouteStops rn en xn eo xo"
  by (induction vrs) (auto simp: Let_def split: option.splits)

lemma find_list_ex: "List.find P xs \<noteq> None \<longleftrightarrow> list_ex P xs"
  by (induction xs) simp_all

lemma match_route_stops_accepts:
  "match_route_stops ela elo xla xlo vrs route \<noteq> None
     \<longleftrightarrow> route_stops_accepts ela elo xla xlo vrs route"
proof (cases "find_stops ela elo xla xlo (br_stops route) None None")
  case (Pair e x)
  show ?thesis
  proof (cases e)
    case None
    with Pair show ?thesis by (simp add: match_route_stops_def route_stops_accepts_def)
  next
    case es: (Some entry_stop)
    show ?thesis
    proof (cases x)
      case None
      with Pair es show ?thesis by (simp add: match_route_stops_def route_stops_accepts_def)
    next
      case (Some exit_stop)
      have n: "br_stops route \<noteq> []"
      proof
        assume "br_stops route = []"
        with Pair es show False by simp
      qed
      let ?P = "\<lambda>vr. py_in (lower (from_location vr)) (lower (stop_name entry_stop))
                  \<and> py_in (lower (to_location vr)) (lower (stop_name exit_stop))"
      from find_list_ex[of ?P vrs] Pair es Some n show ?thesis
        by (cases "List.find ?P vrs")
           (simp_all add: match_route_stops_def route_stops_accepts_def Let_def)
    qed
  qed
qed

lemma match_routes_accepts:
  "match_routes ela elo xla xlo vrs routes \<noteq> None
     \<longleftrightarrow> list_ex (route_stops_accepts ela elo xla xlo vrs) routes"
proof (induction routes)
  case Nil
  show ?case by simp
next
  case (Cons r rs)
  show ?case
  proof (cases "match_route_stops ela elo xla xlo vrs r")
    case None
    with match_route_stops_accepts[of ela elo xla xlo vrs r]
    have "\<not> route_stops_accepts ela elo xla xlo vrs r" by simp
    with None Cons.IH show ?thesis by simp
  next
    case (Some info)
    with match_route_stops_accepts[of ela elo xla xlo vrs r]
    have "route_stops_accepts ela elo xla xlo vrs r" by simp
    with Some show ?thesis by simp
  qed
qed

lemma match_known_locations_accepts:
  "is_valid (match_known_locations ela elo xla xlo vrs)
     \<longleftrightarrow> list_ex (known_location_accepts ela elo xla xlo) vrs"
  by (induction vrs)
     (auto simp: is_valid_def known_location_accepts_def Let_def split: option.splits)

lemma match_known_locations_not_route_stops:
  "\<not> is_route_stops (match_known_locations ela elo xla xlo vrs)"
  by (induction vrs) (auto simp: is_route_stops_def Let_def split: option.splits)

lemma match_routes_route_stops:
  "match_routes ela elo xla xlo vrs routes = Some info \<Longrightarrow> is_route_stops info \<and> is_valid info"
  by (auto dest!: match_routes_order simp: is_route_stops_def is_valid_def)

lemma check_location_proximity_route_stops:
  "is_route_stops (check_location_proximity db ela elo xla xlo vrs) \<longleftrightarrow>
     (case db of Inl e \<Rightarrow> False
      | Inr routes \<Rightarrow> list_ex (route_stops_accepts ela elo xla xlo vrs) (filter br_is_active routes))"
proof (cases db)
  case (Inl e)
  then show ?thesis
    by (simp add: check_location_proximity_def match_known_locations_not_route_stops)
next
  case (Inr routes)
  show ?thesis
  proof (cases "match_routes ela elo xla xlo vrs (filter br_is_active routes)")
    case None
    with match_routes_accepts[of ela elo xla xlo vrs "filter br_is_active routes"]
    have "\<not> list_ex (route_stops_accepts ela elo xla xlo vrs) (filter br_is_active routes)"
      by simp
    with None Inr show ?thesis
      by (simp add: check_location_proximity_def match_known_locations_not_route_stops)
  next
    case (Some info)
    with match_routes_accepts[of ela elo xla xlo vrs "filter br_is_active routes"]
    have "list_ex (route_stops_accepts ela elo xla xlo vrs) (filter br_is_active routes)"
      by simp
    with Some Inr match_routes_route_stops[OF Some] show ?thesis
      by (simp add: check_location_proximity_def)
  qed
qed

lemma check_location_proximity_valid:
  "is_valid (check_location_proximity db ela elo xla xlo vrs) \<longleftrightarrow>
     is_route_stops (check_location_proximity db ela elo xla xlo vrs) \<or>
     list_ex (known_location_accepts ela elo xla xlo) vrs"
proof (cases "case db of Inl e \<Rightarrow> None
              | Inr routes \<Rightarrow> match_routes ela elo xla xlo vrs (filter br_is_active routes)")
  case None
  then show ?thesis
    by (simp add: check_location_proximity_def match_known_locations_accepts
        match_known_locations_not_route_stops)
next
  case (Some info)
  then obtain routes where "match_routes ela elo xla xlo vrs routes = Some info"
    by (auto split: sum.splits)
  from match_routes_route_stops[OF this] Some show ?thesis
    by (simp add: check_location_proximity_def)
qed

lemmas route_fixture_defs = jaffna_stop_def colombo_stop_def jaffna_colombo_route_def

lemma known_locations_jaffna_colombo:
  "known_locations (lower ''Jaffna'') = Some (9.6615, 80.0255)"
  "known_locations (lower ''Colombo'') = Some (6.9271, 79.8612)"
  by (simp_all add: known_locations_def lower_def lower_char_def)

lemma find_stops_return_journey:
  "find_stops 6.9271 79.8612 9.6615 80.0255 (br_stops jaffna_colombo_route) None None
     = (Some colombo_stop, Some jaffna_stop)"
  using colombo_jaffna_far
  by (simp add: route_fixture_defs coord_falsy_def PROXIMITY_THRESHOLD_KM_def
      haversine_same_point Let_def)

lemma find_stops_outward_journey:
  "find_stops 9.6615 80.0255 6.9271 79.8612 (br_stops jaffna_colombo_route) None None
     = (Some jaffna_stop, Some colombo_stop)"
  using colombo_jaffna_far
  by (simp add: route_fixture_defs coord_falsy_def PROXIMITY_THRESHOLD_KM_def
      haversine_same_point Let_def)

lemma stop_fixture_fields:
  "get_stop_order jaffna_stop = 1" "get_stop_order colombo_stop = 8"
  "stop_name jaffna_stop = ''Jaffna''" "stop_name colombo_stop = ''Colombo''"
  "br_stops jaffna_colombo_route \<noteq> []"
  "br_route_name jaffna_colombo_route = ''Jaffna-Colombo''"
  "br_is_active jaffna_colombo_route"
  by (simp_all add: route_fixture_defs get_stop_order_def)

lemma check_location_proximity_single:
  "br_is_active route \<Longrightarrow>
   check_location_proximity (Inr [route]) ela elo xla xlo vrs =
     (case match_route_stops ela elo xla xlo vrs route of
        Some info \<Rightarrow> info
      | None \<Rightarrow> match_known_locations ela elo xla xlo vrs)"
  by (simp add: check_location_proximity_def split: option.splits)

lemmas jaffna_colombo_single = check_location_proximity_single[OF stop_fixture_fields(7)]

text \<open>
  C4, as stated, fails. A member holds a ticket from Colombo to Jaffna and rides the
  Jaffna-Colombo route from its Colombo stop (order 8) to its Jaffna stop (order 1). The
  detected entry stop's order is not below the detected exit stop's order, so the route
  yields no route-stops match; \<open>_check_location_proximity\<close> then goes on to the static
  table of known locations, finds the entry point at \<open>colombo\<close> and the exit point at
  \<open>jaffna\<close>, and accepts the journey as \<open>location_proximity\<close>.
\<close>

theorem wrong_order_journey_accepted:
  "find_stops 6.9271 79.8612 9.6615 80.0255 (br_stops jaffna_colombo_route) None None
     = (Some colombo_stop, Some jaffna_stop) \<and>
   get_stop_order colombo_stop = 8 \<and> get_stop_order jaffna_stop = 1 \<and>
   \<not> get_stop_order colombo_stop < get_stop_order jaffna_stop \<and>
   check_location_proximity (Inr [jaffna_colombo_route]) 6.9271 79.8612 9.6615 80.0255
     [\<lparr>from_location = ''Colombo'', to_location = ''Jaffna'', route_patterns = []\<rparr>]
     = LocationProximity ''colombo'' ''jaffna'' \<and>
   is_valid (check_location_proximity (Inr [jaffna_colombo_route]) 6.9271 79.8612 9.6615 80.0255
     [\<lparr>from_location = ''Colombo'', to_location = ''Jaffna'', route_patterns = []\<rparr>])"
proof -
  let ?vrs = "[\<lparr>from_location = ''Colombo'', to_location = ''Jaffna'', route_patterns = []\<rparr>]"
  have m: "match_route_stops 6.9271 79.8612 9.6615 80.0255 ?vrs jaffna_colombo_route = None"
    unfolding match_route_stops_def find_stops_return_journey
    by (simp add: stop_fixture_fields)
  have l: "lower ''Colombo'' = ''colombo''" "lower ''Jaffna'' = ''jaffna''"
    by (simp_all add: lower_def lower_char_def)
  have k: "match_known_locations 6.9271 79.8612 9.6615 80.0255 ?vrs
             = LocationProximity ''colombo'' ''jaffna''"
    using known_locations_jaffna_colombo
    by (simp add: l haversine_same_point PROXIMITY_THRESHOLD_KM_def)
  have c: "check_location_proximity (Inr [jaffna_colombo_route]) 6.9271 79.8612 9.6615 80.0255 ?vrs
             = LocationProximity ''colombo'' ''jaffna''"
    unfolding jaffna_colombo_single m k by simp
  show ?thesis
    unfolding c find_stops_return_journey by (simp add: stop_fixture_fields is_valid_def)
qed

text \<open>
  C4, amended. The route-stops rule accepts only stop pairs in strictly increasing order:
  a route-stops match carries an entry order below its exit order, whether it is read off
  one route or off the whole of \<open>_check_location_proximity\<close>; a route whose detected
  entry stop does not come strictly before its detected exit stop yields no match; a route
  yields a match exactly when the route-stops rule holds of it; and the function returns a
  route-stops match exactly when the rule holds of some active route. Such a journey is
  still accepted when the known-locations rule holds of a segment of the member: the
  function accepts exactly when it returns a route-stops match or that rule holds of some
  segment, and rejects otherwise.
\<close>

theorem segment_match_requires_increasing_order:
  "(match_route_stops ela elo xla xlo vrs route = Some (RouteStops rn en xn eo xo)
      \<longrightarrow> eo < xo) \<and>
   (find_stops ela elo xla xlo (br_stops route) None None = (Some es, Some xs) \<and>
      \<not> get_stop_order es < get_stop_order xs
      \<longrightarrow> match_route_stops ela elo xla xlo vrs route = None \<and>
          \<not> route_stops_accepts ela elo xla xlo vrs route) \<and>
   (check_location_proximity db ela elo xla xlo vrs = RouteStops rn en xn eo xo
      \<longrightarrow> eo < xo) \<and>
   (match_route_stops ela elo xla xlo vrs route \<noteq> None
      \<longleftrightarrow> route_stops_accepts ela elo xla xlo vrs route) \<and>
   (is_route_stops (check_location_proximity db ela elo xla xlo vrs) \<longleftrightarrow>
      (case db of
         Inl e \<Rightarrow> False
       | Inr routes \<Rightarrow>
           list_ex (route_stops_accepts ela elo xla xlo vrs) (filter br_is_active routes))) \<and>
   (is_valid (check_location_proximity db ela elo xla xlo vrs) \<longleftrightarrow>
      is_route_stops (check_location_proximity db ela elo xla xlo vrs) \<or>
      list_ex (known_location_accepts ela elo xla xlo) vrs)"
proof (intro conjI impI)
  assume "match_route_stops ela elo xla xlo vrs route = Some (RouteStops rn en xn eo xo)"
  from match_route_stops_order[OF this] show "eo < xo" by simp
next
  assume a: "find_stops ela elo xla xlo (br_stops route) None None = (Some es, Some xs) \<and>
      \<not> get_stop_order es < get_stop_order xs"
  then show "match_route_stops ela elo xla xlo vrs route = None"
    by (simp add: match_route_stops_def)
  from a show "\<not> route_stops_accepts ela elo xla xlo vrs route"
    by (simp add: route_stops_accepts_def)
next
  assume a: "check_location_proximity db ela elo xla xlo vrs = RouteStops rn en xn eo xo"
  show "eo < xo"
  proof (cases db)
    case (Inl e)
    with a show ?thesis
      by (simp add: check_location_proximity_def match_known_locations_not_stops)
  next
    case (Inr routes)
    show ?thesis
    proof (cases "match_routes ela elo xla xlo vrs (filter br_is_active routes)")
      case None
      with a Inr show ?thesis
        by (simp add: check_location_proximity_def match_known_locations_not_stops)
    next
      case (Some info)
      with a Inr have "info = RouteStops rn en xn eo xo"
        by (simp add: check_location_proximity_def)
      with match_routes_order[OF Some] show ?thesis by simp
    qed
  qed
next
  show "match_route_stops ela elo xla xlo vrs route \<noteq> None
      \<longleftrightarrow> route_stops_accepts ela elo xla xlo vrs route"
    by (rule match_route_stops_accepts)
next
  show "is_route_stops (check_location_proximity db ela elo xla xlo vrs) \<longleftrightarrow>
      (case db of
         Inl e \<Rightarrow> False
       | Inr routes \<Rightarrow>
           list_ex (route_stops_accepts ela elo xla xlo vrs) (filter br_is_active routes))"
    by (rule check_location_proximity_route_stops)
next
  show "is_valid (check_location_proximity db ela elo xla xlo vrs) \<longleftrightarrow>
      is_route_stops (check_location_proximity db ela elo xla xlo vrs) \<or>
      list_ex (known_location_accepts ela elo xla xlo) vrs"
    by (rule check_location_proximity_valid)
qed

theorem segment_match_requires_increasing_order_witness:
  "find_stops 6.9271 79.8612 9.6615 80.0255 (br_stops jaffna_colombo_route) None None
     = (Some colombo_stop, Some jaffna_stop) \<and>
   match_route_stops 6.9271 79.8612 9.6615 80.0255
     [\<lparr>from_location = ''Jaffna'', to_location = ''Colombo'', route_patterns = []\<rparr>]
     jaffna_colombo_route = None \<and>
   check_location_proximity (Inr [jaffna_colombo_route]) 6.9271 79.8612 9.6615 80.0255
     [\<lparr>from_location = ''Jaffna'', to_location = ''Colombo'', route_patterns = []\<rparr>]
     = NotWithinProximity \<and>
   check_location_proximity (Inr [jaffna_colombo_route]) 9.6615 80.0255 6.9271 79.8612
     [\<lparr>from_location = ''Jaffna'', to_location = ''Colombo'', route_patterns = []\<rparr>]
     = RouteStops ''Jaffna-Colombo'' ''Jaffna'' ''Colombo'' 1 8 \<and>
   (1::int) < 8"
proof -
  let ?vrs = "[\<lparr>from_location = ''Jaffna'', to_location = ''Colombo'', route_patterns = []\<rparr>]"
  let ?db = "Inr [jaffna_colombo_route] :: error + bus_route list"
  have f: "find_stops 6.9271 79.8612 9.6615 80.0255 (br_stops jaffna_colombo_route) None None
             = (Some colombo_stop, Some jaffna_stop)"
    by (rule find_stops_return_journey)
  have o: "\<not> get_stop_order colombo_stop < get_stop_order jaffna_stop"
    by (simp add: stop_fixture_fields)
  have k: "\<not> list_ex (known_location_accepts 6.9271 79.8612 9.6615 80.0255) ?vrs"
    using colombo_jaffna_far
    by (simp add: known_location_accepts_def known_locations_jaffna_colombo
        PROXIMITY_THRESHOLD_KM_def)
  note t = segment_match_requires_increasing_order
             [of "6.9271" "79.8612" "9.6615" "80.0255" ?vrs jaffna_colombo_route
                 "''''" "''''" "''''" 0 0 colombo_stop jaffna_stop ?db]
  from t f o have b: "match_route_stops 6.9271 79.8612 9.6615 80.0255 ?vrs jaffna_colombo_route = None"
    and a: "\<not> route_stops_accepts 6.9271 79.8612 9.6615 80.0255 ?vrs jaffna_colombo_route"
    by simp_all
  from t a k have "\<not> is_valid (check_location_proximity ?db 6.9271 79.8612 9.6615 80.0255 ?vrs)"
    by (simp add: stop_fixture_fields)
  then have r: "check_location_proximity ?db 6.9271 79.8612 9.6615 80.0255 ?vrs = NotWithinProximity"
    by (simp add: is_valid_def split: match_info.splits)
  have m: "match_route_stops 9.6615 80.0255 6.9271 79.8612 ?vrs jaffna_colombo_route
             = Some (RouteStops ''Jaffna-Colombo'' ''Jaffna'' ''Colombo'' 1 8)"
    unfolding match_route_stops_def find_stops_outward_journey
    by (simp add: stop_fixture_fields py_in_def lower_def lower_char_def sublist_code)
  have c: "check_location_proximity ?db 9.6615 80.0255 6.9271 79.8612 ?vrs
             = RouteStops ''Jaffna-Colombo'' ''Jaffna'' ''Colombo'' 1 8"
    unfolding jaffna_colombo_single m by simp
  from segment_match_requires_increasing_order
         [of "9.6615" "80.0255" "6.9271" "79.8612" ?vrs jaffna_colombo_route
             "''Jaffna-Colombo''" "''Jaffna''" "''Colombo''" 1 8 colombo_stop jaffna_stop ?db] c
  have "(1::int) < 8" by simp
  with f b r c show ?thesis by simp
qed

section \<open>Properties of exit matching\<close>

lemmas scenario_defs =
  scenario_trip_def scenario_entry_def scenario_tracker_def scenario_exit_def

lemma cosine_similarity_half: "cosine_similarity [1, 0, 0, 0] [1, 1, 1, 1] = Inr 0.5"
  by (simp add: cosine_similarity_def dot_def row_norm_def)

lemma scenario_entries:
  "entries_list scenario_tracker 7000 scenario_trip = [scenario_entry]"
  by (simp add: entries_list_def scenario_defs)

lemma scenario_no_match:
  "find_matching_entry scenario_tracker 7000 (scenario_exit [1, 0, 0, 0]) None None
     = (None, 0, scenario_tracker)"
proof -
  have m: "match_loop 0.7 [1, 0, 0, 0] [scenario_entry] None 0 = Inr (None, 0)"
    by (simp add: cosine_similarity_half scenario_entry_def)
  have c: "current_trip scenario_tracker = Some scenario_trip" "ct_status scenario_trip = Active"
      "similarity_threshold scenario_tracker = 0.7"
      "log_face_embedding (scenario_exit [1, 0, 0, 0]) = [1, 0, 0, 0]"
    by (simp_all add: scenario_defs)
  show ?thesis
    unfolding find_matching_entry_def c option.case Let_def scenario_entries using m by simp
qed

text \<open>
  When the loop ends without a match, \<open>best_similarity\<close> still holds its initial value:
  the similarity reported beside a failed match is always 0.
\<close>

lemma match_loop_none:
  "match_loop thr q es bm bs = Inr (None, sim) \<Longrightarrow> bm = None \<and> sim = bs"
  by (induction es arbitrary: bm bs) (auto split: if_splits sum.splits)

lemma find_matching_entry_no_match:
  assumes "find_matching_entry s now exit_log d g = (None, sim, s')"
  shows "sim = 0 \<and> s' = s"
  using assms
  by (auto simp: find_matching_entry_def Let_def
      split: if_splits option.splits sum.splits prod.splits dest: match_loop_none)

text \<open>
  C1 at Scenario E. The only open entry has cosine similarity 0.5 to the exit face, the
  threshold is 0.7, and the exit is stored as unmatched; the record's
  \<open>best_similarity_found\<close> is 0, not 0.5.
\<close>

theorem unmatched_exit_records_zero_similarity:
  "cosine_similarity [1, 0, 0, 0] (te_face_embedding scenario_entry) = Inr 0.5 \<and>
   fst (process_face_log scenario_tracker 7000 (scenario_exit [1, 0, 0, 0]) None None)
     = UnmatchedExit 0 True \<and>
   map um_best_similarity_found
     (unmatched_passengers
        (snd (process_face_log scenario_tracker 7000 (scenario_exit [1, 0, 0, 0]) None None)))
     = [0]"
proof -
  have u: "upper ''EXIT'' = ''EXIT''" by (simp add: upper_def)
  have l: "log_location_type (scenario_exit [1, 0, 0, 0]) = ''EXIT''"
    by (simp add: scenario_exit_def)
  have c: "current_trip scenario_tracker = Some scenario_trip" "ct_status scenario_trip = Active"
      "unmatched_passengers scenario_tracker = []"
    by (simp_all add: scenario_defs)
  have p: "process_face_log scenario_tracker 7000 (scenario_exit [1, 0, 0, 0]) None None
     = (UnmatchedExit 0 True,
        snd (store_unmatched_exit scenario_tracker 7000 (scenario_exit [1, 0, 0, 0]) 0))"
    unfolding process_face_log_def Let_def l u scenario_no_match
    by (simp add: store_unmatched_exit_def c)
  show ?thesis unfolding p
    by (simp add: cosine_similarity_half scenario_entry_def store_unmatched_exit_def c)
qed

section \<open>Properties of journey finalization\<close>

lemma cosine_similarity_same: "cosine_similarity [1, 1, 1, 1] [1, 1, 1, 1] = Inr 1"
  by (simp add: cosine_similarity_def dot_def row_norm_def)

lemma scenario_match_loop: "match_loop 0.7 [1, 1, 1, 1] [scenario_entry] None 0 = Inr (Some scenario_entry, 1)"
  by (simp add: cosine_similarity_same scenario_entry_def)

lemma scenario_season_check:
  "check_season_ticket_member (scenario_tracker\<lparr>season_ticket_members := [scenario_member]\<rparr>) 7000 [1, 1, 1, 1]
    = (Some scenario_member, 1)"
  by (simp add: check_season_ticket_member_def scenario_tracker_def scenario_member_def cosine_similarity_same)

lemma entries_list_update:
  "entries_list (s\<lparr>season_ticket_members := ms\<rparr>) now ct = entries_list s now ct"
  "entries_list (s\<lparr>fareStages := fs\<rparr>) now ct = entries_list s now ct"
  by (simp_all add: entries_list_def)

lemma scenario_member_match:
  "fst (find_matching_entry (scenario_tracker\<lparr>season_ticket_members := [scenario_member]\<rparr>) 7000
      (scenario_exit [1, 1, 1, 1]) (Some 5) None) \<noteq> None"
proof -
  let ?s = "scenario_tracker\<lparr>season_ticket_members := [scenario_member]\<rparr>"
  have c: "current_trip ?s = Some scenario_trip" "ct_status scenario_trip = Active"
      "similarity_threshold ?s = 0.7"
      "log_face_embedding (scenario_exit [1, 1, 1, 1]) = [1, 1, 1, 1]"
    by (simp_all add: scenario_defs)
  show ?thesis
    unfolding find_matching_entry_def c option.case entries_list_update scenario_entries Let_def scenario_match_loop scenario_season_check
    by simp
qed

text \<open>
  C5. A season-ticket member whose list of valid routes is empty passes route validation
  for every journey, whatever the route detector says; so when an exit is matched and the
  season-ticket check returns such a member, the journey is finalized: the record that is
  returned carries \<open>is_season_ticket\<close> true, price 0 and the member's id, and it is
  the record appended to the final passengers of the resulting state, under the next
  passenger id.
\<close>

theorem empty_valid_routes_exempt:
  assumes "find_matching_entry s now exit_log d g = (Some fp, sim, s')"
      and "check_season_ticket_member s now (log_face_embedding exit_log) = (Some m, msim)"
      and "sm_valid_routes m = []"
  shows "is_route_valid_for_season_ticket s g' m entry_location exit_location \<and>
         fp_is_season_ticket fp \<and> fp_price fp = 0 \<and> fp_season_member_id fp = Some (sm_member_id m) \<and>
         final_passengers s' = final_passengers s @ [fp] \<and>
         fp \<in> set (final_passengers s') \<and>
         fp_id fp = Suc (length (final_passengers s))"
proof -
  have v: "\<And>gv a b. is_route_valid_for_season_ticket s gv m a b"
    using assms(3) by (simp add: is_route_valid_for_season_ticket_def)
  from assms(1,2) v show ?thesis
    by (auto simp: find_matching_entry_def Let_def
        split: if_splits option.splits sum.splits prod.splits)
qed

theorem empty_valid_routes_exempt_witness:
  "check_season_ticket_member (scenario_tracker\<lparr>season_ticket_members := [scenario_member]\<rparr>)
      7000 (log_face_embedding (scenario_exit [1, 1, 1, 1])) = (Some scenario_member, 1) \<and>
   sm_valid_routes scenario_member = [] \<and>
   final_passengers (scenario_tracker\<lparr>season_ticket_members := [scenario_member]\<rparr>) = [] \<and>
   (case find_matching_entry (scenario_tracker\<lparr>season_ticket_members := [scenario_member]\<rparr>)
           7000 (scenario_exit [1, 1, 1, 1]) (Some 5) None of
      (Some fp, sim, s') \<Rightarrow>
        fp_is_season_ticket fp \<and> fp_price fp = 0 \<and> fp_season_member_id fp = Some ''ST001'' \<and>
        final_passengers s' = [fp] \<and> fp_id fp = 1
    | (None, sim, s') \<Rightarrow> False)"
proof -
  let ?s = "scenario_tracker\<lparr>season_ticket_members := [scenario_member]\<rparr>"
  let ?x = "scenario_exit [1, 1, 1, 1]"
  have e: "log_face_embedding ?x = [1, 1, 1, 1]" by (simp add: scenario_exit_def)
  have c: "check_season_ticket_member ?s 7000 (log_face_embedding ?x) = (Some scenario_member, 1)"
    unfolding e by (rule scenario_season_check)
  have r: "sm_valid_routes scenario_member = []" "sm_member_id scenario_member = ''ST001''"
    by (simp_all add: scenario_member_def)
  have p: "final_passengers ?s = []" by (simp add: scenario_tracker_def)
  obtain fp sim s' where f: "find_matching_entry ?s 7000 ?x (Some 5) None = (Some fp, sim, s')"
    using scenario_member_match by (cases "find_matching_entry ?s 7000 ?x (Some 5) None") auto
  from empty_valid_routes_exempt[OF f c r(1)] r(2) p
  have "fp_is_season_ticket fp \<and> fp_price fp = 0 \<and> fp_season_member_id fp = Some ''ST001'' \<and>
        final_passengers s' = [fp] \<and> fp_id fp = 1"
    by simp
  with c r p f show ?thesis by simp
qed

lemma match_loop_some:
  "match_loop thr q es bm bs = Inr (Some E, sim) \<Longrightarrow> E \<in> set es \<or> bm = Some E"
  by (induction es arbitrary: bm bs) (auto split: if_splits sum.splits)

lemma entries_list_subset: "set (entries_list s now ct) \<subseteq> set (temp_entries s)"
  by (auto simp: entries_list_def Let_def)

lemma delete_one_subset: "set (delete_one P xs) \<subseteq> set xs"
  by (induction xs) auto

lemma delete_one_distinct_key:
  "distinct (map f xs) \<Longrightarrow> x \<in> set xs \<Longrightarrow> f x \<notin> f ` set (delete_one (\<lambda>e. f e = f x) xs)"
proof (induction xs)
  case Nil
  then show ?case by simp
next
  case (Cons a xs)
  show ?case
  proof (cases "f a = f x")
    case True
    with Cons.prems(1) show ?thesis by auto
  next
    case False
    with Cons have "x \<in> set xs" by auto
    with Cons False show ?thesis by auto
  qed
qed

text \<open>
  C9. A consumed entry is never matched twice. When \<open>find_matching_entry\<close> matches,
  the matched entry E is one of the open entries, it is deleted from \<open>temp_entries\<close>,
  and afterwards no run of the matching loop over the open entries, at any later time and
  with any embedding or threshold, returns an entry with E's \<open>_id\<close>. Document ids
  are unique, as the store guarantees.
\<close>

theorem consumed_entry_not_matched_again:
  assumes d: "distinct (map te_oid (temp_entries s))"
      and f: "find_matching_entry s now exit_log dk g = (Some fp, sim, s')"
  shows "\<exists>E ct. current_trip s = Some ct \<and> E \<in> set (temp_entries s) \<and>
           match_loop (similarity_threshold s) (log_face_embedding exit_log)
             (entries_list s now ct) None 0 = Inr (Some E, sim) \<and>
           temp_entries s' = delete_one (\<lambda>e. te_oid e = te_oid E) (temp_entries s) \<and>
           E \<notin> set (temp_entries s') \<and>
           (\<forall>now' ct' thr emb E' sim'.
               match_loop thr emb (entries_list s' now' ct') None 0 = Inr (Some E', sim')
               \<longrightarrow> te_oid E' \<noteq> te_oid E)"
proof -
  from f obtain ct E where ct: "current_trip s = Some ct"
    and m: "match_loop (similarity_threshold s) (log_face_embedding exit_log)
             (entries_list s now ct) None 0 = Inr (Some E, sim)"
    and t: "temp_entries s' = delete_one (\<lambda>e. te_oid e = te_oid E) (temp_entries s)"
    by (auto simp: find_matching_entry_def Let_def
        split: if_splits option.splits sum.splits prod.splits)
  from match_loop_some[OF m] have "E \<in> set (entries_list s now ct)" by simp
  with entries_list_subset have E: "E \<in> set (temp_entries s)" by blast
  from delete_one_distinct_key[OF d E]
  have k: "te_oid E \<notin> te_oid ` set (temp_entries s')" unfolding t .
  then have n: "E \<notin> set (temp_entries s')" by blast
  have later: "te_oid E' \<noteq> te_oid E"
    if "match_loop thr emb (entries_list s' now' ct') None 0 = Inr (Some E', sim')"
    for now' ct' thr emb E' sim'
  proof -
    from match_loop_some[OF that] have "E' \<in> set (entries_list s' now' ct')" by simp
    with entries_list_subset have "E' \<in> set (temp_entries s')" by blast
    then have "te_oid E' \<in> te_oid ` set (temp_entries s')" by (rule imageI)
    with k show ?thesis by auto
  qed
  from ct E m t n later show ?thesis by blast
qed

text \<open>
  C10. An error inside \<open>calculate_fare\<close> is swallowed: a non-empty string as the
  distance raises \<open>TypeError\<close> in the comparison, a failing query on the fare-stage
  collection raises in the lookup, and in both cases the function returns 0. A matched
  journey whose fare lookup fails is therefore still finalized, with price 0.
\<close>

theorem calculate_fare_swallows_errors:
  "(str \<noteq> [] \<longrightarrow> calculate_fare_body db (PyStr str) = Inl TypeError \<and>
                    calculate_fare db (PyStr str) = 0) \<and>
   (0.1 \<le> d \<longrightarrow> calculate_fare_body (Inl e) (PyNum d) = Inl e \<and>
                  calculate_fare (Inl e) (PyNum d) = 0) \<and>
   (find_matching_entry s now exit_log dk g = (Some fp, sim, s') \<and> fareStages s = Inl e
      \<longrightarrow> fp_price fp = 0 \<and> fp \<in> set (final_passengers s'))"
proof (intro conjI impI)
  assume "find_matching_entry s now exit_log dk g = (Some fp, sim, s') \<and> fareStages s = Inl e"
  then show "fp_price fp = 0"
    by (auto simp: find_matching_entry_def Let_def calculate_fare_def calculate_fare_body_def
        split: if_splits option.splits sum.splits prod.splits)
next
  assume "find_matching_entry s now exit_log dk g = (Some fp, sim, s') \<and> fareStages s = Inl e"
  then show "fp \<in> set (final_passengers s')"
    by (auto simp: find_matching_entry_def Let_def
        split: if_splits option.splits sum.splits prod.splits)
qed (auto simp: calculate_fare_def calculate_fare_body_def)

lemma scenario_match:
  "find_matching_entry scenario_tracker 7000 (scenario_exit [1, 1, 1, 1]) (Some 5) None
     = (Some \<lparr>fp_id = 1, fp_trip_id = TripId ''BUS_JC_001'' 100, fp_bus_id = ''BUS_JC_001'',
              fp_is_season_ticket = False, fp_season_member_id = None,
              fp_entry_timestamp = 6100, fp_exit_timestamp = 7000,
              fp_journey_duration_minutes = 15, fp_similarity_score = 1,
              fp_entry_face_id = 1, fp_exit_face_id = 2, fp_distance_km = Some 5,
              fp_price = 40, fp_stage_number = 2\<rparr>,
        1,
        scenario_tracker
          \<lparr>season_ticket_members := [],
           final_passengers :=
             [\<lparr>fp_id = 1, fp_trip_id = TripId ''BUS_JC_001'' 100, fp_bus_id = ''BUS_JC_001'',
               fp_is_season_ticket = False, fp_season_member_id = None,
               fp_entry_timestamp = 6100, fp_exit_timestamp = 7000,
               fp_journey_duration_minutes = 15, fp_similarity_score = 1,
               fp_entry_face_id = 1, fp_exit_face_id = 2, fp_distance_km = Some 5,
               fp_price = 40, fp_stage_number = 2\<rparr>],
           temp_entries := []\<rparr>)"
proof -
  have c: "current_trip scenario_tracker = Some scenario_trip" "ct_status scenario_trip = Active"
      "similarity_threshold scenario_tracker = 0.7"
      "log_face_embedding (scenario_exit [1, 1, 1, 1]) = [1, 1, 1, 1]"
    by (simp_all add: scenario_defs)
  have n: "check_season_ticket_member scenario_tracker 7000 [1, 1, 1, 1] = (None, 0)"
    by (simp add: check_season_ticket_member_def scenario_tracker_def)
  have p: "calculate_fare (fareStages scenario_tracker) (PyNum 5) = 40"
    by (simp add: scenario_tracker_def fare_eval_defs)
  show ?thesis
    unfolding find_matching_entry_def c option.case scenario_entries Let_def scenario_match_loop n
    by (simp add: p) (simp add: scenario_defs parse_timestamp_safe_def)
qed

theorem consumed_entry_not_matched_again_witness:
  "distinct (map te_oid (temp_entries scenario_tracker)) \<and>
   fst (find_matching_entry scenario_tracker 7000 (scenario_exit [1, 1, 1, 1]) (Some 5) None)
     \<noteq> None \<and>
   temp_entries
     (snd (snd (find_matching_entry scenario_tracker 7000 (scenario_exit [1, 1, 1, 1])
                  (Some 5) None))) = [] \<and>
   fst (find_matching_entry
          (snd (snd (find_matching_entry scenario_tracker 7000 (scenario_exit [1, 1, 1, 1])
                       (Some 5) None)))
          7100 (scenario_exit [1, 1, 1, 1]) (Some 5) None) = None"
proof -
  have d: "distinct (map te_oid (temp_entries scenario_tracker))"
    by (simp add: scenario_tracker_def)
  obtain fp sim s' where
    f: "find_matching_entry scenario_tracker 7000 (scenario_exit [1, 1, 1, 1]) (Some 5) None
          = (Some fp, sim, s')"
    using scenario_match by blast
  from consumed_entry_not_matched_again[OF d f] obtain E where
    E: "E \<in> set (temp_entries scenario_tracker)"
    and t: "temp_entries s' = delete_one (\<lambda>e. te_oid e = te_oid E) (temp_entries scenario_tracker)"
    by blast
  from E have "E = scenario_entry" by (simp add: scenario_tracker_def)
  with t have e: "temp_entries s' = []" by (simp add: scenario_tracker_def)
  have "entries_list s' 7100 ct = []" for ct
    using e by (simp add: entries_list_def)
  then have "fst (find_matching_entry s' 7100 (scenario_exit [1, 1, 1, 1]) (Some 5) None) = None"
    by (simp add: find_matching_entry_def Let_def split: option.splits)
  with d f e show ?thesis by simp
qed

theorem calculate_fare_swallows_errors_witness:
  "calculate_fare (Inr []) (PyStr ''far'') = 0 \<and>
   calculate_fare (Inl DatabaseError) (PyNum 5) = 0 \<and>
   fareStages (scenario_tracker\<lparr>fareStages := Inl DatabaseError\<rparr>) = Inl DatabaseError \<and>
   (case find_matching_entry (scenario_tracker\<lparr>fareStages := Inl DatabaseError\<rparr>) 7000
           (scenario_exit [1, 1, 1, 1]) (Some 5) None of
      (Some fp, sim, s') \<Rightarrow> fp_price fp = 0 \<and> fp_distance_km fp = Some 5
    | (None, sim, s') \<Rightarrow> False)"
proof -
  let ?s = "scenario_tracker\<lparr>fareStages := Inl DatabaseError\<rparr>"
  let ?x = "scenario_exit [1, 1, 1, 1]"
  have c: "current_trip ?s = Some scenario_trip" "ct_status scenario_trip = Active"
      "similarity_threshold ?s = 0.7" "log_face_embedding ?x = [1, 1, 1, 1]"
    by (simp_all add: scenario_defs)
  have fs: "fareStages ?s = Inl DatabaseError" by simp
  have some: "fst (find_matching_entry ?s 7000 ?x (Some 5) None) \<noteq> None"
    and dist: "\<And>fp sim s'. find_matching_entry ?s 7000 ?x (Some 5) None = (Some fp, sim, s')
                 \<Longrightarrow> fp_distance_km fp = Some 5"
    unfolding find_matching_entry_def c option.case entries_list_update scenario_entries Let_def
      scenario_match_loop
    by auto
  then obtain fp sim s' where f: "find_matching_entry ?s 7000 ?x (Some 5) None = (Some fp, sim, s')"
    by (cases "find_matching_entry ?s 7000 ?x (Some 5) None") auto
  from calculate_fare_swallows_errors
         [of "''far''" "Inr []" 5 DatabaseError ?s 7000 ?x "Some 5" None fp sim s'] f fs
  have "calculate_fare (Inr []) (PyStr ''far'') = 0"
       "calculate_fare (Inl DatabaseError) (PyNum 5) = 0" "fp_price fp = 0"
    by simp_all
  with f fs dist[OF f] show ?thesis by simp
qed

section \<open>Properties of the trip ledger\<close>

lemma update_one_distinct:
  "distinct (map key xs) \<Longrightarrow>
   update_one (\<lambda>t. key t = k) f xs = map (\<lambda>t. if key t = k then f t else t) xs"
proof (induction xs)
  case Nil
  then show ?case by simp
next
  case (Cons x xs)
  show ?case
  proof (cases "key x = k")
    case True
    with Cons.prems have "k \<notin> key ` set xs" by auto
    then have "map (\<lambda>t. if key t = k then f t else t) xs = xs"
      by (induction xs) auto
    with True show ?thesis by simp
  next
    case False
    with Cons show ?thesis by simp
  qed
qed

lemma end_current_trip_fields:
  "bus_id (snd (end_current_trip s now)) = bus_id s"
  "next_oid (snd (end_current_trip s now)) = next_oid s"
  "map ts_oid (trip_sessions (snd (end_current_trip s now))) = map ts_oid (trip_sessions s)"
proof -
  show "bus_id (snd (end_current_trip s now)) = bus_id s"
    by (simp add: end_current_trip_def Let_def split: option.splits)
  show "next_oid (snd (end_current_trip s now)) = next_oid s"
    by (simp add: end_current_trip_def Let_def split: option.splits)
  have "map ts_oid (update_one P (\<lambda>t. t\<lparr>ts_status := a, ts_end_time := b,
            ts_total_passengers := c, ts_total_unmatched := d\<rparr>) xs) = map ts_oid xs"
    for P a b c d and xs :: "trip_session list"
    by (induction xs) auto
  then show "map ts_oid (trip_sessions (snd (end_current_trip s now))) = map ts_oid (trip_sessions s)"
    by (simp add: end_current_trip_def Let_def split: option.splits)
qed

lemma filter_single_key:
  assumes "map key (filter P xs) = [k]"
  shows "filter (\<lambda>t. P t \<and> key t \<noteq> k) xs = []"
proof -
  have "\<And>t. t \<in> set (filter P xs) \<Longrightarrow> key t = k"
  proof -
    fix t assume "t \<in> set (filter P xs)"
    then have "key t \<in> set (map key (filter P xs))" by (simp only: set_map) (rule imageI)
    with assms show "key t = k" by simp
  qed
  then show ?thesis by (auto simp: filter_empty_conv)
qed

lemma filter_active_completed:
  "filter (\<lambda>t. ts_bus_id t = b \<and> ts_status t = Active)
     (map (\<lambda>t. if ts_oid t = k
               then t\<lparr>ts_status := Completed, ts_end_time := e,
                      ts_total_passengers := p, ts_total_unmatched := u\<rparr>
               else t) xs)
   = filter (\<lambda>t. (ts_bus_id t = b \<and> ts_status t = Active) \<and> ts_oid t \<noteq> k) xs"
  by (induction xs) auto

lemma end_current_trip_active:
  assumes "trip_inv s" and "current_trip s = Some ct"
  shows "active_sessions (snd (end_current_trip s now)) = []"
proof -
  from assms have d: "distinct (map ts_oid (trip_sessions s))"
    and a: "map ts_oid (filter (\<lambda>t. ts_bus_id t = bus_id s \<and> ts_status t = Active)
              (trip_sessions s)) = [ct_oid ct]"
    by (simp_all add: trip_inv_def active_sessions_def)
  have "active_sessions (snd (end_current_trip s now)) =
        filter (\<lambda>t. (ts_bus_id t = bus_id s \<and> ts_status t = Active) \<and> ts_oid t \<noteq> ct_oid ct)
          (trip_sessions s)"
    using assms(2)
    by (simp add: end_current_trip_def Let_def active_sessions_def update_one_distinct[OF d]
        filter_active_completed)
  with filter_single_key[OF a] show ?thesis by simp
qed

lemma end_current_trip_inv:
  assumes "trip_inv s"
  shows "trip_inv (snd (end_current_trip s now)) \<and> current_trip (snd (end_current_trip s now)) = None"
proof (cases "current_trip s")
  case None
  with assms show ?thesis by (simp add: end_current_trip_def)
next
  case (Some ct)
  have c: "current_trip (snd (end_current_trip s now)) = None"
    using Some by (simp add: end_current_trip_def Let_def)
  have l: "list_all (\<lambda>t. ts_oid t < next_oid s) (trip_sessions (snd (end_current_trip s now)))"
  proof -
    from assms have "\<forall>k\<in>set (map ts_oid (trip_sessions s)). k < next_oid s"
      by (auto simp: trip_inv_def list_all_iff)
    then have "\<forall>k\<in>set (map ts_oid (trip_sessions (snd (end_current_trip s now)))). k < next_oid s"
      by (simp only: end_current_trip_fields)
    then show ?thesis by (auto simp: list_all_iff)
  qed
  from assms have "distinct (map ts_oid (trip_sessions s))" by (simp add: trip_inv_def)
  with l c end_current_trip_active[OF assms Some] show ?thesis
    by (simp add: trip_inv_def end_current_trip_fields)
qed

lemma cleanup_orphans_fields:
  "bus_id (cleanup_orphans s) = bus_id s"
  "next_oid (cleanup_orphans s) = next_oid s"
  "trip_sessions (cleanup_orphans s) = trip_sessions s"
  "current_trip (cleanup_orphans s) = current_trip s"
  by (simp_all add: cleanup_orphans_def Let_def)

lemma cleanup_orphans_active: "active_sessions (cleanup_orphans s) = active_sessions s"
  by (simp add: active_sessions_def cleanup_orphans_fields)

lemma cleanup_orphans_inv: "trip_inv (cleanup_orphans s) = trip_inv s"
  unfolding trip_inv_def cleanup_orphans_active cleanup_orphans_fields by (rule refl)

text \<open>The state in which the new session is created: no trip is current, none is active.\<close>

lemma before_insert:
  fixes now :: int
  assumes "trip_inv s"
  defines "s2 \<equiv> cleanup_orphans (if trip_active s then snd (end_current_trip s now) else s)"
  shows "trip_inv s2 \<and> active_sessions s2 = [] \<and> bus_id s2 = bus_id s"
proof (cases "trip_active s")
  case True
  then obtain ct where ct: "current_trip s = Some ct" by (auto simp: trip_active_def split: option.splits)
  from end_current_trip_inv[OF assms(1), of now] end_current_trip_active[OF assms(1) ct, of now] True
  show ?thesis
    by (simp add: s2_def cleanup_orphans_inv cleanup_orphans_active cleanup_orphans_fields
        end_current_trip_fields)
next
  case False
  with assms(1) have "active_sessions s = []"
    by (auto simp: trip_inv_def trip_active_def split: option.splits)
  with assms(1) False show ?thesis
    by (simp add: s2_def cleanup_orphans_inv cleanup_orphans_active cleanup_orphans_fields)
qed

lemma start_new_trip_gps:
  assumes "trip_inv s"
  shows "fst (start_new_trip s now st (Some gps)) = None \<and>
         trip_inv (snd (start_new_trip s now st (Some gps))) \<and>
         active_sessions (snd (start_new_trip s now st (Some gps))) = []"
  using before_insert[OF assms, of now] by (simp add: start_new_trip_def Let_def)

lemma start_new_trip_no_gps:
  assumes "trip_inv s"
  shows "fst (start_new_trip s now st None) \<noteq> None \<and>
         trip_inv (snd (start_new_trip s now st None)) \<and>
         length (active_sessions (snd (start_new_trip s now st None))) = 1 \<and>
         trip_active (snd (start_new_trip s now st None))"
proof -
  define s2 where "s2 = cleanup_orphans (if trip_active s then snd (end_current_trip s now) else s)"
  from before_insert[OF assms, of now]
  have i: "trip_inv s2" and a: "active_sessions s2 = []" unfolding s2_def by simp_all
  from i have d: "distinct (map ts_oid (trip_sessions s2))"
    and l: "list_all (\<lambda>t. ts_oid t < next_oid s2) (trip_sessions s2)"
    by (simp_all add: trip_inv_def)
  from l have fresh: "next_oid s2 \<notin> ts_oid ` set (trip_sessions s2)"
    by (auto simp: list_all_iff)
  from l have l': "list_all (\<lambda>t. ts_oid t < Suc (next_oid s2)) (trip_sessions s2)"
    by (auto simp: list_all_iff)
  from a have a': "filter (\<lambda>t. ts_bus_id t = bus_id s2 \<and> ts_status t = Active) (trip_sessions s2) = []"
    by (simp add: active_sessions_def)
  show ?thesis
    unfolding start_new_trip_def Let_def s2_def[symmetric]
    using d fresh l' a'
    by (simp add: trip_inv_def active_sessions_def trip_active_def)
qed

lemma cleanup_orphans_entries:
  "filter (\<lambda>e. te_bus_id e = bus_id s) (temp_entries (cleanup_orphans s)) = []"
  "length (unmatched_passengers (cleanup_orphans s)) =
     length (unmatched_passengers s) + length (filter (\<lambda>e. te_bus_id e = bus_id s) (temp_entries s))"
  "set (unmatched_passengers s) \<subseteq> set (unmatched_passengers (cleanup_orphans s))"
  "set (temp_entries (cleanup_orphans s)) \<subseteq> set (temp_entries s)"
  by (auto simp: cleanup_orphans_def Let_def delete_many_def filter_empty_conv)

lemma end_current_trip_entries:
  assumes "current_trip s = Some ct"
  shows "unmatched_passengers (snd (end_current_trip s now)) =
           unmatched_passengers s @
           map (entry_to_unmatched (ct_trip_id ct) (bus_id s) ''Trip ended - no exit match found'')
             (filter (\<lambda>e. te_trip_id e = ct_trip_id ct \<and> te_bus_id e = bus_id s) (temp_entries s))"
    and "temp_entries (snd (end_current_trip s now)) =
           filter (\<lambda>e. te_trip_id e \<noteq> ct_trip_id ct) (temp_entries s)"
  using assms by (simp_all add: end_current_trip_def Let_def delete_many_def)

lemma length_filter_split:
  "length (filter (\<lambda>e. P e \<and> Q e) xs) + length (filter (\<lambda>e. \<not> P e \<and> Q e) xs)
     = length (filter Q xs)"
  by (induction xs) auto

lemma start_new_trip_entries:
  "temp_entries (snd (start_new_trip s now st gps)) =
     temp_entries (cleanup_orphans (if trip_active s then snd (end_current_trip s now) else s))"
  "unmatched_passengers (snd (start_new_trip s now st gps)) =
     unmatched_passengers (cleanup_orphans (if trip_active s then snd (end_current_trip s now) else s))"
  by (simp_all add: start_new_trip_def Let_def split: option.splits)

lemma start_new_trip_migrates:
  "filter (\<lambda>e. te_bus_id e = bus_id s) (temp_entries (snd (start_new_trip s now st gps))) = []"
  "length (unmatched_passengers (snd (start_new_trip s now st gps))) =
     length (unmatched_passengers s) + length (filter (\<lambda>e. te_bus_id e = bus_id s) (temp_entries s))"
proof -
  let ?s1 = "if trip_active s then snd (end_current_trip s now) else s"
  have b: "bus_id ?s1 = bus_id s" by (simp add: end_current_trip_fields)
  from cleanup_orphans_entries(1)[of ?s1]
  show "filter (\<lambda>e. te_bus_id e = bus_id s) (temp_entries (snd (start_new_trip s now st gps))) = []"
    unfolding start_new_trip_entries b .
  show "length (unmatched_passengers (snd (start_new_trip s now st gps))) =
     length (unmatched_passengers s) + length (filter (\<lambda>e. te_bus_id e = bus_id s) (temp_entries s))"
  proof (cases "trip_active s")
    case False
    then show ?thesis
      unfolding start_new_trip_entries by (simp add: cleanup_orphans_entries(2))
  next
    case True
    then obtain ct where ct: "current_trip s = Some ct"
      by (auto simp: trip_active_def split: option.splits)
    show ?thesis
      unfolding start_new_trip_entries cleanup_orphans_entries(2)
      using True
      by (simp add: end_current_trip_entries[OF ct] end_current_trip_fields
          length_filter_split[of "\<lambda>e. te_trip_id e = ct_trip_id ct" "\<lambda>e. te_bus_id e = bus_id s"])
  qed
qed

lemma start_new_trip_moves_open_entries:
  assumes "current_trip s = Some ct" "ct_status ct = Active"
      and "e \<in> set (temp_entries s)" "te_trip_id e = ct_trip_id ct" "te_bus_id e = bus_id s"
  shows "entry_to_unmatched (ct_trip_id ct) (bus_id s) ''Trip ended - no exit match found'' e
           \<in> set (unmatched_passengers (snd (start_new_trip s now st gps))) \<and>
         e \<notin> set (temp_entries (snd (start_new_trip s now st gps)))"
proof -
  from assms(1,2) have a: "trip_active s" by (simp add: trip_active_def)
  have "entry_to_unmatched (ct_trip_id ct) (bus_id s) ''Trip ended - no exit match found'' e
          \<in> set (unmatched_passengers (snd (end_current_trip s now)))"
    using assms(3,4,5) by (simp add: end_current_trip_entries[OF assms(1)])
  with cleanup_orphans_entries(3) have 1: "entry_to_unmatched (ct_trip_id ct) (bus_id s)
       ''Trip ended - no exit match found'' e
          \<in> set (unmatched_passengers (cleanup_orphans (snd (end_current_trip s now))))"
    by blast
  have "e \<notin> set (temp_entries (snd (end_current_trip s now)))"
    using assms(4) by (simp add: end_current_trip_entries[OF assms(1)])
  with cleanup_orphans_entries(4) have 2:
    "e \<notin> set (temp_entries (cleanup_orphans (snd (end_current_trip s now))))" by blast
  from 1 2 a show ?thesis unfolding start_new_trip_entries by simp
qed

text \<open>
  C8. From a state that satisfies the ledger invariant, \<open>start_new_trip\<close> keeps the
  invariant, so at most one session of the bus is active. It first completes the active
  trip: every entry of the bus leaves \<open>temp_entries\<close>, each becomes one unmatched
  record, and an open entry of the ended trip becomes the record built from it. Called
  without a GPS fix it leaves exactly one active session, also when called twice in a row.
  Called with a GPS fix it returns \<open>None\<close> after ending the old trip and leaves no active
  session: there the claim's "exactly one ACTIVE trip" fails.
\<close>

theorem start_new_trip_active_trips:
  assumes "trip_inv s"
  shows "trip_inv (snd (start_new_trip s now st gps)) \<and>
         length (active_sessions (snd (start_new_trip s now st gps))) \<le> 1 \<and>
         (gps = None \<longrightarrow> length (active_sessions (snd (start_new_trip s now st gps))) = 1 \<and>
             length (active_sessions
               (snd (start_new_trip (snd (start_new_trip s now st gps)) now2 st2 None))) = 1) \<and>
         (gps \<noteq> None \<longrightarrow> fst (start_new_trip s now st gps) = None \<and>
             active_sessions (snd (start_new_trip s now st gps)) = []) \<and>
         filter (\<lambda>e. te_bus_id e = bus_id s) (temp_entries (snd (start_new_trip s now st gps))) = [] \<and>
         length (unmatched_passengers (snd (start_new_trip s now st gps))) =
           length (unmatched_passengers s) +
           length (filter (\<lambda>e. te_bus_id e = bus_id s) (temp_entries s)) \<and>
         (current_trip s = Some ct \<and> ct_status ct = Active \<and> e \<in> set (temp_entries s) \<and>
            te_trip_id e = ct_trip_id ct \<and> te_bus_id e = bus_id s
          \<longrightarrow> entry_to_unmatched (ct_trip_id ct) (bus_id s)
                 ''Trip ended - no exit match found'' e
                 \<in> set (unmatched_passengers (snd (start_new_trip s now st gps))) \<and>
              e \<notin> set (temp_entries (snd (start_new_trip s now st gps))))"
proof (cases gps)
  case None
  from start_new_trip_no_gps[OF assms, of now st]
  have 1: "trip_inv (snd (start_new_trip s now st None))"
    and 2: "length (active_sessions (snd (start_new_trip s now st None))) = 1" by simp_all
  from start_new_trip_no_gps[OF 1, of now2 st2]
  have 3: "length (active_sessions
               (snd (start_new_trip (snd (start_new_trip s now st None)) now2 st2 None))) = 1"
    by simp
  from 1 2 3 None start_new_trip_migrates[of s now st gps]
    start_new_trip_moves_open_entries[of s ct e now st gps]
  show ?thesis by auto
next
  case (Some g)
  from start_new_trip_gps[OF assms, of now st g] Some start_new_trip_migrates[of s now st gps]
    start_new_trip_moves_open_entries[of s ct e now st gps]
  show ?thesis by auto
qed

lemma scenario_inv: "trip_inv scenario_tracker"
  by (simp add: trip_inv_def active_sessions_def scenario_defs)

lemma scenario_gps_start:
  "temp_entries (snd (start_new_trip scenario_tracker 8000 None (Some (9.66, 80.02)))) = [] \<and>
   unmatched_passengers (snd (start_new_trip scenario_tracker 8000 None (Some (9.66, 80.02))))
     = [entry_to_unmatched (TripId ''BUS_JC_001'' 100) ''BUS_JC_001''
          ''Trip ended - no exit match found'' scenario_entry] \<and>
   map ts_status (trip_sessions (snd (start_new_trip scenario_tracker 8000 None (Some (9.66, 80.02)))))
     = [Completed] \<and>
   current_trip (snd (start_new_trip scenario_tracker 8000 None (Some (9.66, 80.02)))) = None"
proof -
  have a: "trip_active scenario_tracker" by (simp add: trip_active_def scenario_defs)
  have e: "snd (end_current_trip scenario_tracker 8000) =
     scenario_tracker
       \<lparr>unmatched_passengers :=
          [entry_to_unmatched (TripId ''BUS_JC_001'' 100) ''BUS_JC_001''
             ''Trip ended - no exit match found'' scenario_entry],
        temp_entries := [],
        trip_sessions :=
          [\<lparr>ts_oid = 0, ts_trip_id = TripId ''BUS_JC_001'' 100, ts_bus_id = ''BUS_JC_001'',
            ts_start_time = 6000, ts_end_time = Some 8000, ts_status = Completed,
            ts_total_passengers = 0, ts_total_unmatched = 1\<rparr>],
        current_trip := None\<rparr>"
    by (simp add: end_current_trip_def Let_def delete_many_def scenario_defs)
  show ?thesis
    unfolding start_new_trip_def Let_def using a
    by (simp add: e cleanup_orphans_def)
qed

theorem start_new_trip_active_trips_witness:
  "trip_inv scenario_tracker \<and>
   fst (start_new_trip scenario_tracker 8000 None (Some (9.66, 80.02))) = None \<and>
   active_sessions (snd (start_new_trip scenario_tracker 8000 None (Some (9.66, 80.02)))) = [] \<and>
   temp_entries (snd (start_new_trip scenario_tracker 8000 None (Some (9.66, 80.02)))) = [] \<and>
   unmatched_passengers (snd (start_new_trip scenario_tracker 8000 None (Some (9.66, 80.02))))
     = [entry_to_unmatched (TripId ''BUS_JC_001'' 100) ''BUS_JC_001''
          ''Trip ended - no exit match found'' scenario_entry] \<and>
   length (active_sessions (snd (start_new_trip scenario_tracker 8000 None None))) = 1"
proof -
  from start_new_trip_active_trips
         [OF scenario_inv, of 8000 None "Some (9.66, 80.02)" 8000 None scenario_trip scenario_entry]
  have g: "fst (start_new_trip scenario_tracker 8000 None (Some (9.66, 80.02))) = None"
          "active_sessions (snd (start_new_trip scenario_tracker 8000 None (Some (9.66, 80.02)))) = []"
    by simp_all
  from start_new_trip_active_trips
         [OF scenario_inv, of 8000 None None 8000 None scenario_trip scenario_entry]
  have n: "length (active_sessions (snd (start_new_trip scenario_tracker 8000 None None))) = 1"
    by simp
  from scenario_inv g n scenario_gps_start show ?thesis by simp
qed

lemma find_matching_entry_fields:
  "bus_id (snd (snd (find_matching_entry s now x d g))) = bus_id s"
  "next_oid (snd (snd (find_matching_entry s now x d g))) = next_oid s"
  "trip_sessions (snd (snd (find_matching_entry s now x d g))) = trip_sessions s"
  "current_trip (snd (snd (find_matching_entry s now x d g))) = current_trip s"
  by (simp_all add: find_matching_entry_def Let_def
      split: if_splits option.splits sum.splits prod.splits)

lemma store_unmatched_exit_fields:
  "bus_id (snd (store_unmatched_exit s now x b)) = bus_id s"
  "next_oid (snd (store_unmatched_exit s now x b)) = next_oid s"
  "trip_sessions (snd (store_unmatched_exit s now x b)) = trip_sessions s"
  "current_trip (snd (store_unmatched_exit s now x b)) = current_trip s"
  by (simp_all add: store_unmatched_exit_def split: option.splits)

lemma trip_inv_cong:
  assumes "bus_id s' = bus_id s" "next_oid s' = next_oid s" "trip_sessions s' = trip_sessions s"
    "current_trip s' = current_trip s"
  shows "trip_inv s' = trip_inv s"
  unfolding trip_inv_def active_sessions_def assms by (rule refl)

lemma store_entry_inv:
  assumes "trip_inv s"
  shows "trip_inv (snd (store_entry s now x))"
proof -
  define s1 where "s1 = (if trip_active s then s else snd (start_new_trip s now None None))"
  have i: "trip_inv s1"
    using assms start_new_trip_no_gps[OF assms, of now None] by (simp add: s1_def)
  show ?thesis
  proof (cases "current_trip s1")
    case None
    with i show ?thesis unfolding store_entry_def Let_def s1_def[symmetric] by simp
  next
    case (Some ct)
    from i have "list_all (\<lambda>t. ts_oid t < Suc (next_oid s1)) (trip_sessions s1)"
      by (auto simp: trip_inv_def list_all_iff)
    with i Some show ?thesis
      unfolding store_entry_def Let_def s1_def[symmetric]
      by (simp add: trip_inv_def active_sessions_def)
  qed
qed

lemma process_face_log_inv:
  assumes "trip_inv s"
  shows "trip_inv (snd (process_face_log s now x d g))"
proof -
  have e: "trip_inv (snd (store_entry s now x))" by (rule store_entry_inv[OF assms])
  have f: "trip_inv (snd (snd (find_matching_entry s now x d g)))"
    using assms by (simp add: trip_inv_cong[OF find_matching_entry_fields])
  have u: "trip_inv (snd (store_unmatched_exit (snd (snd (find_matching_entry s now x d g))) now x b))"
    for b using f by (simp add: trip_inv_cong[OF store_unmatched_exit_fields])
  show ?thesis
    using assms e f u
    by (simp add: process_face_log_def Let_def case_prod_unfold split: option.splits)
qed

lemma trip_inv_at_most_one: "trip_inv s \<Longrightarrow> length (active_sessions s) \<le> 1"
proof -
  assume "trip_inv s"
  then have "length (map ts_oid (active_sessions s)) \<le> 1"
    by (auto simp: trip_inv_def split: option.splits)
  then show ?thesis by simp
qed

end
